theory Spec2Isabelle
  imports Main "HOL-Library.Word"
begin

section \<open>The values the binding receives\<close>

text \<open>
  The methods of \<open>node_osrm.cpp\<close> receive JavaScript values through V8 handles and only
  ever ask a value for its kind, its elements, its named properties or one of V8's
  coercions. A value is therefore a tree; the type \<open>'n\<close> of numbers (IEEE doubles in V8)
  is left open, since the code never computes on a number except through the coercions
  and the double arithmetic collected in the record \<open>host\<close> below.
  \<open>JFunction\<close> carries the identity of a function object, \<open>JError\<close> is the Error object
  that \<open>NanError\<close> builds from a message.
\<close>

datatype 'n jsval =
    JUndefined
  | JNull
  | JBool bool
  | JNumber 'n
  | JString string
  | JArray "'n jsval list"
  | JObject "(string \<times> 'n jsval) list"
  | JFunction nat
  | JError string

fun IsUndefined :: "'n jsval \<Rightarrow> bool" where
  "IsUndefined JUndefined = True"
| "IsUndefined _ = False"

fun IsNull :: "'n jsval \<Rightarrow> bool" where
  "IsNull JNull = True"
| "IsNull _ = False"

fun IsString :: "'n jsval \<Rightarrow> bool" where
  "IsString (JString _) = True"
| "IsString _ = False"

fun IsArray :: "'n jsval \<Rightarrow> bool" where
  "IsArray (JArray _) = True"
| "IsArray _ = False"

fun IsFunction :: "'n jsval \<Rightarrow> bool" where
  "IsFunction (JFunction _) = True"
| "IsFunction _ = False"

fun IsObject :: "'n jsval \<Rightarrow> bool" where
  "IsObject (JArray _) = True"
| "IsObject (JObject _) = True"
| "IsObject (JFunction _) = True"
| "IsObject (JError _) = True"
| "IsObject _ = False"

text \<open>\<open>Local<Array>::Cast(v)\<close> followed by reading the elements \<open>0 .. Length() - 1\<close>.\<close>

fun elements :: "'n jsval \<Rightarrow> 'n jsval list" where
  "elements (JArray xs) = xs"
| "elements _ = []"

definition Length :: "'n jsval \<Rightarrow> nat" where
  "Length v = length (elements v)"

text \<open>\<open>array->Get(i)\<close>: V8 answers \<open>undefined\<close> beyond the last element.\<close>

definition Get_index :: "'n jsval \<Rightarrow> nat \<Rightarrow> 'n jsval" where
  "Get_index v i = (if i < Length v then elements v ! i else JUndefined)"

text \<open>\<open>obj->Has(NanNew(key))\<close> and \<open>obj->Get(NanNew(key))\<close> for the property names the
  binding asks for; only plain objects carry them.\<close>

fun properties :: "'n jsval \<Rightarrow> (string \<times> 'n jsval) list" where
  "properties (JObject ps) = ps"
| "properties _ = []"

definition Has :: "'n jsval \<Rightarrow> string \<Rightarrow> bool" where
  "Has obj key = (map_of (properties obj) key \<noteq> None)"

definition Get :: "'n jsval \<Rightarrow> string \<Rightarrow> 'n jsval" where
  "Get obj key = (case map_of (properties obj) key of None \<Rightarrow> JUndefined | Some v \<Rightarrow> v)"

text \<open>\<open>args[i]\<close>: V8 answers \<open>undefined\<close> for an index outside the argument list.\<close>

definition arg :: "'n jsval list \<Rightarrow> nat \<Rightarrow> 'n jsval" where
  "arg args i = (if i < length args then args ! i else JUndefined)"

text \<open>\<open>value->ToObject()\<close>: an object is itself, a primitive is wrapped (the wrapper has
  none of the properties the binding reads), and for \<open>null\<close> and \<open>undefined\<close> V8 raises
  and hands back an empty handle, \<open>None\<close> here.\<close>

fun ToObject :: "'n jsval \<Rightarrow> 'n jsval option" where
  "ToObject JUndefined = None"
| "ToObject JNull = None"
| "ToObject (JBool _) = Some (JObject [])"
| "ToObject (JNumber _) = Some (JObject [])"
| "ToObject (JString _) = Some (JObject [])"
| "ToObject v = Some v"

text \<open>A \<open>const char *\<close> read as a string ends at the first NUL byte: \<open>std::string(p)\<close>,
  \<open>NanNew(p)\<close>, \<open>NanError(p)\<close> and \<open>s.c_str()\<close> handed to one of them.\<close>

definition c_str :: "string \<Rightarrow> string" where
  "c_str s = takeWhile (\<lambda>c. c \<noteq> CHR 0x00) s"

section \<open>Request descriptors and the engine library\<close>

record FixedPointCoordinate =
  lat :: "32 word"
  lon :: "32 word"

record RouteParameters =
  zoom_level :: "16 word"
  print_instructions :: bool
  alternate_route :: bool
  geometry :: bool
  compression :: bool
  check_sum :: "32 word"
  service :: string
  output_format :: string
  jsonp_parameter :: string
  language :: string
  hints :: "string list"
  coordinates :: "FixedPointCoordinate list"

datatype query_outcome = Content string | Exception string

text \<open>
  What the file takes from V8 and from the OSRM library, neither of which is part of it:
  the coercions of a value (\<open>NumberValue\<close>, \<open>BooleanValue\<close>, \<open>Uint32Value\<close>,
  \<open>Int32Value\<close>, and \<open>ToString\<close> for a value that is not a string), the constant
  \<open>COORDINATE_PRECISION\<close>, the product of two doubles and \<open>static_cast<int>\<close> of a
  double (with whatever the platform yields where C++ leaves the conversion undefined:
  NaN, infinities, values outside \<open>int\<close>), the default-constructed
  \<open>RouteParameters\<close>, the constructor of \<open>OSRM\<close>
  (the message of the exception it throws, if it does), \<open>OSRM::RunQuery\<close> (the reply's
  content, or the \<open>what()\<close> of the exception), and whether a callback called with given
  arguments throws.
\<close>

record 'n host =
  NumberValue :: "'n jsval \<Rightarrow> 'n"
  BooleanValue :: "'n jsval \<Rightarrow> bool"
  Uint32Value :: "'n jsval \<Rightarrow> 32 word"
  Int32Value :: "'n jsval \<Rightarrow> 32 word"
  ToString :: "'n jsval \<Rightarrow> string"
  COORDINATE_PRECISION :: 'n
  times :: "'n \<Rightarrow> 'n \<Rightarrow> 'n"
  static_cast_int :: "'n \<Rightarrow> 32 word"
  new_RouteParameters :: RouteParameters
  new_OSRM :: "(string \<times> string) list \<Rightarrow> bool \<Rightarrow> string option"
  RunQuery :: "nat \<Rightarrow> RouteParameters \<Rightarrow> query_outcome"
  callback_throws :: "'n jsval \<Rightarrow> 'n jsval list \<Rightarrow> bool"

text \<open>\<open>*v8::String::Utf8Value(v)\<close> read into a \<open>std::string\<close>.\<close>

definition Utf8Value :: "'n host \<Rightarrow> 'n jsval \<Rightarrow> string" where
  "Utf8Value h v = c_str (case v of JString s \<Rightarrow> s | _ \<Rightarrow> ToString h v)"

text \<open>\<open>static_cast<int>(v->NumberValue() * COORDINATE_PRECISION)\<close>\<close>

definition fixed_point :: "'n host \<Rightarrow> 'n jsval \<Rightarrow> 32 word" where
  "fixed_point h v = static_cast_int h (times h (NumberValue h v) (COORDINATE_PRECISION h))"

text \<open>\<open>FixedPointCoordinate(lat, lon)\<close> from the two elements of a pair, as every
  \<open>emplace_back\<close> of the file builds it.\<close>

definition emplace_back :: "'n host \<Rightarrow> 'n jsval \<Rightarrow> RouteParameters \<Rightarrow> RouteParameters" where
  "emplace_back h coordinate_pair p =
     p\<lparr>coordinates := coordinates p @
        [\<lparr>lat = fixed_point h (Get_index coordinate_pair 0),
          lon = fixed_point h (Get_index coordinate_pair 1)\<rparr>]\<rparr>"

section \<open>Exceptions and outcomes of a method call\<close>

datatype js_exception = TypeError string | Error string

text \<open>A method returns \<open>undefined\<close> (\<open>Returned\<close>), returns with an exception pending
  (\<open>Thrown\<close>), or dereferences an empty handle (\<open>Crashed\<close>).\<close>

datatype completion = Returned | Thrown js_exception | Crashed

section \<open>Engine::New\<close>

record Engine =
  paths :: "(string \<times> string) list"
  use_shared_memory :: bool

definition New :: "'n host \<Rightarrow> bool \<Rightarrow> 'n jsval list \<Rightarrow> js_exception + Engine" where
  "New h IsConstructCall args =
     (if \<not> IsConstructCall
      then Inl (TypeError ''Cannot call constructor as function, you need to use 'new' keyword'')
      else if length args = 1 \<and> \<not> IsString (arg args 0)
      then Inl (Error ''OSRM base path must be a string'')
      else
        let paths = (if length args = 1 then [(''base'', Utf8Value h (arg args 0))] else []) in
        (case new_OSRM h paths (length args = 0) of
           Some what \<Rightarrow> Inl (TypeError (c_str what))
         | None \<Rightarrow> Inr \<lparr>paths = paths, use_shared_memory = (length args = 0)\<rparr>))"

section \<open>Jobs and the event loop\<close>

record 'n RunQueryBaton =
  machine :: nat
  result :: string
  params :: RouteParameters
  cb :: "'n jsval"
  error :: bool

text \<open>
  The state outside a single call: the closures allocated with \<open>new RunQueryBaton\<close>
  (by address, \<open>next_closure\<close> being the next fresh one), the requests handed to
  \<open>uv_queue_work\<close> that wait for a worker (\<open>queued\<close>) and those whose work is done and
  that wait for the loop (\<open>finished\<close>), the \<open>refs_\<close> counter of every wrapped engine, the
  calls made through \<open>NanMakeCallback\<close> (the closure on whose behalf, the function, the
  arguments) and the closures whose callback threw into \<open>node::FatalException\<close>.
\<close>

record 'n world =
  heap :: "nat \<Rightarrow> 'n RunQueryBaton option"
  next_closure :: nat
  queued :: "nat list"
  finished :: "nat list"
  refs :: "nat \<Rightarrow> nat"
  calls :: "(nat \<times> 'n jsval \<times> 'n jsval list) list"
  fatal :: "nat list"

definition Run :: "nat \<Rightarrow> 'n jsval list \<Rightarrow> RouteParameters \<Rightarrow> 'n world \<Rightarrow> completion \<times> 'n world" where
  "Run this args p w =
     (let callback = arg args (length args - 1) in
      if \<not> IsFunction callback
      then (Thrown (TypeError ''last argument must be a callback function''), w)
      else
        let closure = next_closure w in
        (Returned,
         w\<lparr>heap := (heap w)(closure \<mapsto>
               \<lparr>machine = this, result = [], params = p, cb = callback, error = False\<rparr>),
           next_closure := Suc closure,
           queued := queued w @ [closure],
           refs := (refs w)(this := Suc (refs w this))\<rparr>))"

definition AsyncRun :: "'n host \<Rightarrow> nat \<Rightarrow> 'n world \<Rightarrow> 'n world option" where
  "AsyncRun h req w =
     (case heap w req of
        None \<Rightarrow> None
      | Some closure \<Rightarrow>
          Some (w\<lparr>heap := (heap w)(req \<mapsto>
                  (case RunQuery h (machine closure) (params closure) of
                     Content content \<Rightarrow> closure\<lparr>result := content\<rparr>
                   | Exception what \<Rightarrow> closure\<lparr>error := True, result := c_str what\<rparr>))\<rparr>))"

text \<open>\<open>ObjectWrap::Unref\<close> asserts \<open>refs_ > 0\<close> before it decrements; a failed assertion
  or a request without its closure is \<open>None\<close>.\<close>

definition AfterRun :: "'n host \<Rightarrow> nat \<Rightarrow> 'n world \<Rightarrow> 'n world option" where
  "AfterRun h req w =
     (case heap w req of
        None \<Rightarrow> None
      | Some closure \<Rightarrow>
          let argv = (if error closure
                      then [JError (c_str (result closure))]
                      else [JNull, JString (c_str (result closure))]);
              w1 = w\<lparr>calls := calls w @ [(req, cb closure, argv)]\<rparr>;
              w2 = (if callback_throws h (cb closure) argv
                    then w1\<lparr>fatal := fatal w1 @ [req]\<rparr> else w1)
          in if refs w2 (machine closure) = 0 then None
             else Some (w2\<lparr>refs := (refs w2)(machine closure := refs w2 (machine closure) - 1),
                          heap := (heap w2)(req := None)\<rparr>))"

section \<open>The four request methods\<close>

text \<open>The loop over \<open>coordinates_array\<close>, shared word for word by \<open>route\<close> and
  \<open>table\<close>.\<close>

fun add_coordinates ::
  "'n host \<Rightarrow> 'n jsval list \<Rightarrow> RouteParameters \<Rightarrow> js_exception + RouteParameters" where
  "add_coordinates h [] p = Inr p"
| "add_coordinates h (coordinate # rest) p =
     (if \<not> IsArray coordinate
      then Inl (Error ''coordinates must be an array of (lat/long) pairs'')
      else if Length coordinate \<noteq> 2
      then Inl (Error ''coordinates must be an array of (lat/long) pairs'')
      else add_coordinates h rest (emplace_back h coordinate p))"

text \<open>The loop over \<open>hints_array\<close> of \<open>route\<close>.\<close>

fun add_hints ::
  "'n host \<Rightarrow> 'n jsval list \<Rightarrow> RouteParameters \<Rightarrow> js_exception + RouteParameters" where
  "add_hints h [] p = Inr p"
| "add_hints h (hint # rest) p =
     (if IsString hint
      then add_hints h rest (p\<lparr>hints := hints p @ [Utf8Value h hint]\<rparr>)
      else if IsNull hint
      then add_hints h rest (p\<lparr>hints := hints p @ ['''']\<rparr>)
      else Inl (Error ''hint must be null or string''))"

text \<open>The optional properties of \<open>route\<close>, in the order of the source.\<close>

definition apply_options :: "'n host \<Rightarrow> 'n jsval \<Rightarrow> RouteParameters \<Rightarrow> RouteParameters" where
  "apply_options h obj p =
     (let p1 = (if Has obj ''alternateRoute''
                then p\<lparr>alternate_route := BooleanValue h (Get obj ''alternateRoute'')\<rparr> else p);
          p2 = (if Has obj ''checksum''
                then p1\<lparr>check_sum := Uint32Value h (Get obj ''checksum'')\<rparr> else p1);
          p3 = (if Has obj ''zoomLevel''
                then p2\<lparr>zoom_level := ucast (Int32Value h (Get obj ''zoomLevel''))\<rparr> else p2);
          p4 = (if Has obj ''printInstructions''
                then p3\<lparr>print_instructions := BooleanValue h (Get obj ''printInstructions'')\<rparr>
                else p3)
      in if Has obj ''jsonpParameter''
         then p4\<lparr>jsonp_parameter := Utf8Value h (Get obj ''jsonpParameter'')\<rparr> else p4)"

text \<open>\<open>Engine::route\<close> up to the call of \<open>Run\<close>: the exception it throws, or the
  descriptor it hands over.\<close>

definition route_params :: "'n host \<Rightarrow> 'n jsval list \<Rightarrow> completion + RouteParameters" where
  "route_params h args =
     (if length args < 2 then Inl (Thrown (TypeError ''two arguments required''))
      else if \<not> IsObject (arg args 0) then Inl (Thrown (TypeError ''two arguments required''))
      else case ToObject (arg args 0) of
        None \<Rightarrow> Inl Crashed
      | Some obj \<Rightarrow>
        if IsNull obj \<or> IsUndefined obj then Inl (Thrown (Error ''first arg must be an object''))
        else
          let params0 = (new_RouteParameters h)\<lparr>
                zoom_level := 18, print_instructions := False, alternate_route := True,
                geometry := True, compression := True, check_sum := 0,
                service := ''viaroute'', output_format := ''json'',
                jsonp_parameter := '''', language := ''''\<rparr> in
          if \<not> Has obj ''coordinates''
          then Inl (Thrown (Error ''must provide a coordinates property''))
          else
            let coordinates_array = Get obj ''coordinates'' in
            if \<not> IsArray coordinates_array
            then Inl (Thrown (Error ''coordinates must be an array of (lat/long) pairs''))
            else if Length coordinates_array < 2
            then Inl (Thrown (Error ''at least two coordinates must be provided''))
            else (case add_coordinates h (elements coordinates_array) params0 of
              Inl e \<Rightarrow> Inl (Thrown e)
            | Inr params1 \<Rightarrow>
                let params2 = apply_options h obj params1 in
                if Has obj ''hints''
                then
                  let hints_array = Get obj ''hints'' in
                  if \<not> IsArray hints_array
                  then Inl (Thrown (Error ''hints must be an array of strings/null''))
                  else (case add_hints h (elements hints_array) params2 of
                          Inl e \<Rightarrow> Inl (Thrown e)
                        | Inr params3 \<Rightarrow> Inr params3)
                else Inr params2))"

definition route :: "'n host \<Rightarrow> nat \<Rightarrow> 'n jsval list \<Rightarrow> 'n world \<Rightarrow> completion \<times> 'n world" where
  "route h this args w =
     (case route_params h args of Inl c \<Rightarrow> (c, w) | Inr p \<Rightarrow> Run this args p w)"

text \<open>\<open>Engine::locate\<close> and \<open>Engine::nearest\<close> differ in the service name only.\<close>

definition single_params ::
  "'n host \<Rightarrow> string \<Rightarrow> 'n jsval list \<Rightarrow> completion + RouteParameters" where
  "single_params h name args =
     (if length args < 2 then Inl (Thrown (TypeError ''two arguments required''))
      else
        let coordinate = arg args 0 in
        if \<not> IsArray coordinate
        then Inl (Thrown (Error ''first argument must be an array of lat, long''))
        else if Length coordinate \<noteq> 2
        then Inl (Thrown (Error ''first argument must be an array of lat, long''))
        else Inr (emplace_back h coordinate ((new_RouteParameters h)\<lparr>service := name\<rparr>)))"

definition locate :: "'n host \<Rightarrow> nat \<Rightarrow> 'n jsval list \<Rightarrow> 'n world \<Rightarrow> completion \<times> 'n world" where
  "locate h this args w =
     (case single_params h ''locate'' args of
        Inl c \<Rightarrow> (c, w) | Inr p \<Rightarrow> Run this args p w)"

definition nearest :: "'n host \<Rightarrow> nat \<Rightarrow> 'n jsval list \<Rightarrow> 'n world \<Rightarrow> completion \<times> 'n world" where
  "nearest h this args w =
     (case single_params h ''nearest'' args of
        Inl c \<Rightarrow> (c, w) | Inr p \<Rightarrow> Run this args p w)"

definition table_params :: "'n host \<Rightarrow> 'n jsval list \<Rightarrow> completion + RouteParameters" where
  "table_params h args =
     (if length args < 2 then Inl (Thrown (TypeError ''two arguments required''))
      else case ToObject (arg args 0) of
        None \<Rightarrow> Inl Crashed
      | Some obj \<Rightarrow>
        if IsNull obj \<or> IsUndefined obj then Inl (Thrown (Error ''first arg must be an object''))
        else
          let coordinates_array = Get obj ''coordinates'' in
          if \<not> IsArray coordinates_array
          then Inl (Thrown (Error ''coordinates must be an array of (lat/long) pairs''))
          else if Length coordinates_array < 2
          then Inl (Thrown (Error ''at least two coordinates must be provided''))
          else (case add_coordinates h (elements coordinates_array)
                      ((new_RouteParameters h)\<lparr>service := ''table''\<rparr>) of
            Inl e \<Rightarrow> Inl (Thrown e)
          | Inr params1 \<Rightarrow> Inr params1))"

definition table :: "'n host \<Rightarrow> nat \<Rightarrow> 'n jsval list \<Rightarrow> 'n world \<Rightarrow> completion \<times> 'n world" where
  "table h this args w =
     (case table_params h args of Inl c \<Rightarrow> (c, w) | Inr p \<Rightarrow> Run this args p w)"

text \<open>The methods \<open>Engine::Initialize\<close> puts on the prototype, by name.\<close>

definition prototype_methods ::
  "(string \<times> ('n host \<Rightarrow> nat \<Rightarrow> 'n jsval list \<Rightarrow> 'n world \<Rightarrow> completion \<times> 'n world)) list" where
  "prototype_methods =
     [(''route'', route), (''locate'', locate), (''nearest'', nearest), (''table'', table)]"


section \<open>The event loop\<close>

text \<open>
  What happens to the state, one event at a time: a call of one of the prototype methods
  on the loop thread, a worker taking a queued request and running \<open>AsyncRun\<close> on it
  (the \<open>work_cb\<close> of \<open>uv_queue_work\<close>), and the loop running \<open>AfterRun\<close> on a request
  whose work is done (its \<open>after_work_cb\<close>). libuv runs each of the two once for a
  request, in this order; an event that is not enabled, and a call that crashes the
  process, is \<open>None\<close>.
\<close>

datatype 'n event = Call string nat "'n jsval list" | Work nat | After nat

fun step :: "'n host \<Rightarrow> 'n event \<Rightarrow> 'n world \<Rightarrow> 'n world option" where
  "step h (Call name this args) w =
     (case map_of prototype_methods name of
        None \<Rightarrow> None
      | Some f \<Rightarrow> (case f h this args w of (Crashed, _) \<Rightarrow> None | (_, w') \<Rightarrow> Some w'))"
| "step h (Work req) w =
     (if req \<in> set (queued w)
      then map_option
             (\<lambda>w'. w'\<lparr>queued := remove1 req (queued w'), finished := finished w' @ [req]\<rparr>)
             (AsyncRun h req w)
      else None)"
| "step h (After req) w =
     (if req \<in> set (finished w)
      then AfterRun h req (w\<lparr>finished := remove1 req (finished w)\<rparr>)
      else None)"

fun run :: "'n host \<Rightarrow> 'n event list \<Rightarrow> 'n world \<Rightarrow> 'n world option" where
  "run h [] w = Some w"
| "run h (e # es) w = (case step h e w of None \<Rightarrow> None | Some w' \<Rightarrow> run h es w')"

text \<open>The state before any request, the engines' counters being \<open>r\<close>.\<close>

definition start :: "(nat \<Rightarrow> nat) \<Rightarrow> 'n world" where
  "start r = \<lparr>heap = (\<lambda>_. None), next_closure = 0, queued = [], finished = [],
              refs = r, calls = [], fatal = []\<rparr>"

text \<open>The requests between \<open>uv_queue_work\<close> and the end of \<open>AfterRun\<close>, those of them
  that hold engine \<open>m\<close>, and the number of callback calls made for a closure.\<close>

definition in_flight :: "'n world \<Rightarrow> nat list" where
  "in_flight w = queued w @ finished w"

definition holding :: "'n world \<Rightarrow> nat \<Rightarrow> nat list" where
  "holding w m = filter (\<lambda>req. map_option machine (heap w req) = Some m) (in_flight w)"

definition invocations :: "'n world \<Rightarrow> nat \<Rightarrow> nat" where
  "invocations w req = length (filter (\<lambda>c. fst c = req) (calls w))"

text \<open>Letting the loop run until nothing is left: every queued request is worked on,
  then every finished one is completed.\<close>

definition drain :: "'n world \<Rightarrow> 'n event list" where
  "drain w = map Work (queued w) @ map After (finished w @ queued w)"

section \<open>A host to run examples on\<close>

text \<open>
  Numbers are the integers, on which V8's coercions and the scaling are exact:
  \<open>COORDINATE_PRECISION\<close> is 1000000, \<open>null\<close> and \<open>false\<close> count 0 and \<open>true\<close> 1, the
  32-bit coercions wrap, and a product outside \<open>int\<close> is cast to the least \<open>int\<close>, as
  the conversion instruction of x86 does. The other values, whose number is NaN or has to be parsed, are
  given 0; the examples below do not depend on it. The engine answers \<open>viaroute\<close> and
  \<open>table\<close> and throws on the other services.
\<close>

definition example_host :: "int host" where
  "example_host = \<lparr>
     NumberValue = (\<lambda>v. case v of JNumber n \<Rightarrow> n | JBool b \<Rightarrow> of_bool b | _ \<Rightarrow> 0),
     BooleanValue = (\<lambda>v. case v of JUndefined \<Rightarrow> False | JNull \<Rightarrow> False | JBool b \<Rightarrow> b
                        | JNumber n \<Rightarrow> n \<noteq> 0 | JString s \<Rightarrow> s \<noteq> [] | _ \<Rightarrow> True),
     Uint32Value = (\<lambda>v. case v of JNumber n \<Rightarrow> word_of_int n | JBool b \<Rightarrow> of_bool b | _ \<Rightarrow> 0),
     Int32Value = (\<lambda>v. case v of JNumber n \<Rightarrow> word_of_int n | JBool b \<Rightarrow> of_bool b | _ \<Rightarrow> 0),
     ToString = (\<lambda>v. case v of JUndefined \<Rightarrow> ''undefined'' | JNull \<Rightarrow> ''null''
                    | JBool b \<Rightarrow> (if b then ''true'' else ''false'') | JString s \<Rightarrow> s
                    | _ \<Rightarrow> ''[object]''),
     COORDINATE_PRECISION = 1000000,
     times = (\<lambda>a b. a * b),
     static_cast_int = (\<lambda>x. if - 2147483648 \<le> x \<and> x < 2147483648 then word_of_int x
                             else - 2147483648),
     new_RouteParameters = \<lparr>
       zoom_level = 18, print_instructions = False, alternate_route = True, geometry = True,
       compression = True, check_sum = 0, service = [], output_format = [],
       jsonp_parameter = [], language = [], hints = [], coordinates = []\<rparr>,
     new_OSRM = (\<lambda>paths shared. None),
     RunQuery = (\<lambda>m p. if service p = ''viaroute'' \<or> service p = ''table''
                        then Content ''{}'' else Exception ''no such service''),
     callback_throws = (\<lambda>f argv. False)\<rparr>"

text \<open>Two coordinate pairs, \<open>[[1,2],[3,4]]\<close>, and the state before any request with
  every counter at 0.\<close>

definition two_points :: "int jsval" where
  "two_points = JArray [JArray [JNumber 1, JNumber 2], JArray [JNumber 3, JNumber 4]]"

definition w0 :: "int world" where
  "w0 = start (\<lambda>_. 0)"

text \<open>The same host with an engine whose reply holds a NUL byte: \<open>a\<close>, NUL, \<open>b\<close>.\<close>

definition nul_host :: "int host" where
  "nul_host = example_host\<lparr>RunQuery := (\<lambda>m p. Content [CHR ''a'', CHR 0x00, CHR ''b''])\<rparr>"

section \<open>Well-formed states\<close>

text \<open>
  What holds of every state the loop reaches from \<open>start r\<close>: no request is in flight
  twice, every request in flight has its closure and an address below the next fresh
  one, the counter of an engine is \<open>r\<close> plus the number of requests in flight that hold
  it, and the callback has been called once for every closure that was allocated and is
  no longer in flight and not at all for any other.
\<close>

definition wf :: "(nat \<Rightarrow> nat) \<Rightarrow> 'n world \<Rightarrow> bool" where
  "wf r w \<longleftrightarrow>
     distinct (in_flight w) \<and>
     (\<forall>req \<in> set (in_flight w). req < next_closure w \<and> heap w req \<noteq> None) \<and>
     (\<forall>m. refs w m = r m + length (holding w m)) \<and>
     (\<forall>req. invocations w req =
        (if req < next_closure w \<and> req \<notin> set (in_flight w) then 1 else 0))"

text \<open>
  Following one job: the request \<open>req\<close> submitted for engine \<open>this\<close> with descriptor \<open>p\<close>
  and callback \<open>callback\<close>. While it is queued its closure is as \<open>Run\<close> made it; while
  it is finished the closure holds what \<open>AsyncRun\<close> wrote; once it is out of flight the
  log has one call for it, of that callback with the outcome of the query.
\<close>

definition tracked ::
  "'n host \<Rightarrow> nat \<Rightarrow> nat \<Rightarrow> RouteParameters \<Rightarrow> 'n jsval \<Rightarrow> 'n world \<Rightarrow> bool" where
  "tracked h req this p callback w \<longleftrightarrow>
     req < next_closure w \<and>
     (req \<in> set (queued w) \<longrightarrow>
        heap w req = Some \<lparr>machine = this, result = [], params = p,
                           cb = callback, error = False\<rparr>) \<and>
     (req \<in> set (finished w) \<longrightarrow>
        heap w req =
          Some (case RunQuery h this p of
                  Content content \<Rightarrow>
                    \<lparr>machine = this, result = content, params = p,
                     cb = callback, error = False\<rparr>
                | Exception what \<Rightarrow>
                    \<lparr>machine = this, result = c_str what, params = p,
                     cb = callback, error = True\<rparr>)) \<and>
     (req \<notin> set (in_flight w) \<longrightarrow>
        filter (\<lambda>c. fst c = req) (calls w) =
          [(req, callback,
            case RunQuery h this p of
              Content content \<Rightarrow> [JNull, JString (c_str content)]
            | Exception what \<Rightarrow> [JError (c_str what)])])"

section \<open>Basic facts\<close>

lemma ToObject_IsObject: "IsObject v \<Longrightarrow> ToObject v = Some v"
  by (cases v) simp_all

lemma ToObject_not_null: "ToObject v = Some obj \<Longrightarrow> \<not> IsNull obj \<and> \<not> IsUndefined obj"
  by (cases v) auto

lemma Run_function:
  "IsFunction (arg args (length args - 1)) \<Longrightarrow>
   Run this args p w =
     (Returned,
      w\<lparr>heap := (heap w)(next_closure w \<mapsto>
            \<lparr>machine = this, result = [], params = p,
             cb = arg args (length args - 1), error = False\<rparr>),
        next_closure := Suc (next_closure w),
        queued := queued w @ [next_closure w],
        refs := (refs w)(this := Suc (refs w this))\<rparr>)"
  by (simp add: Run_def Let_def)

lemma Run_not_Returned: "Run this args p w = (c, w') \<Longrightarrow> c \<noteq> Returned \<Longrightarrow> w' = w"
  by (auto simp: Run_def Let_def split: if_splits)

lemma Run_Returned_iff:
  "fst (Run this args p w) = Returned \<longleftrightarrow> IsFunction (arg args (length args - 1))"
  by (simp add: Run_def Let_def)

lemma route_not_Returned: "route h this args w = (c, w') \<Longrightarrow> c \<noteq> Returned \<Longrightarrow> w' = w"
  by (auto simp: route_def split: sum.splits dest: Run_not_Returned)

lemma locate_not_Returned: "locate h this args w = (c, w') \<Longrightarrow> c \<noteq> Returned \<Longrightarrow> w' = w"
  by (auto simp: locate_def split: sum.splits dest: Run_not_Returned)

lemma nearest_not_Returned: "nearest h this args w = (c, w') \<Longrightarrow> c \<noteq> Returned \<Longrightarrow> w' = w"
  by (auto simp: nearest_def split: sum.splits dest: Run_not_Returned)

lemma table_not_Returned: "table h this args w = (c, w') \<Longrightarrow> c \<noteq> Returned \<Longrightarrow> w' = w"
  by (auto simp: table_def split: sum.splits dest: Run_not_Returned)

lemma prototype_methods_cases:
  "(name, f) \<in> set prototype_methods \<Longrightarrow>
   f = route \<or> f = locate \<or> f = nearest \<or> f = table"
  by (auto simp: prototype_methods_def)





lemma route_params_not_Returned: "route_params h args \<noteq> Inl Returned"
  by (simp add: route_params_def Let_def split: option.splits sum.splits)

lemma single_params_not_Returned: "single_params h name args \<noteq> Inl Returned"
  by (simp add: single_params_def Let_def)

lemma table_params_not_Returned: "table_params h args \<noteq> Inl Returned"
  by (simp add: table_params_def Let_def split: option.splits sum.splits)






lemma add_coordinates_Inr:
  "add_coordinates h cs p = Inr p' \<Longrightarrow>
   (\<forall>c\<in>set cs. IsArray c \<and> Length c = 2) \<and>
   p' = p\<lparr>coordinates := coordinates p @
          map (\<lambda>c. \<lparr>lat = fixed_point h (Get_index c 0), lon = fixed_point h (Get_index c 1)\<rparr>) cs\<rparr>"
proof (induction cs arbitrary: p)
  case Nil
  then show ?case by simp
next
  case (Cons c cs)
  from Cons.prems have ok: "IsArray c" "Length c = 2"
    and rest: "add_coordinates h cs (emplace_back h c p) = Inr p'"
    by (auto split: if_splits)
  from Cons.IH [OF rest] ok show ?case
    by (simp add: emplace_back_def)
qed

lemma add_coordinates_pairs:
  "\<forall>c\<in>set cs. IsArray c \<and> Length c = 2 \<Longrightarrow> \<exists>p'. add_coordinates h cs p = Inr p'"
  by (induction cs arbitrary: p) auto

lemma add_coordinates_Inl:
  "\<exists>c\<in>set cs. \<not> (IsArray c \<and> Length c = 2) \<Longrightarrow>
   add_coordinates h cs p = Inl (Error ''coordinates must be an array of (lat/long) pairs'')"
  by (induction cs arbitrary: p) auto

lemma add_hints_Inr:
  "add_hints h hs p = Inr p' \<Longrightarrow>
   (\<forall>x\<in>set hs. IsString x \<or> IsNull x) \<and>
   p' = p\<lparr>hints := hints p @ map (\<lambda>x. if IsString x then Utf8Value h x else []) hs\<rparr>"
proof (induction hs arbitrary: p)
  case Nil
  then show ?case by simp
next
  case (Cons x hs)
  show ?case
  proof (cases "IsString x")
    case True
    with Cons.prems have "add_hints h hs (p\<lparr>hints := hints p @ [Utf8Value h x]\<rparr>) = Inr p'"
      by simp
    from Cons.IH [OF this] True show ?thesis by simp
  next
    case False
    with Cons.prems have null: "IsNull x"
      and rest: "add_hints h hs (p\<lparr>hints := hints p @ ['''']\<rparr>) = Inr p'"
      by (auto split: if_splits)
    from Cons.IH [OF rest] False null show ?thesis by simp
  qed
qed

lemma add_hints_strings:
  "\<forall>x\<in>set hs. IsString x \<or> IsNull x \<Longrightarrow> \<exists>p'. add_hints h hs p = Inr p'"
  by (induction hs arbitrary: p) auto

lemma add_hints_Inl:
  "\<exists>x\<in>set hs. \<not> IsString x \<and> \<not> IsNull x \<Longrightarrow>
   add_hints h hs p = Inl (Error ''hint must be null or string'')"
  by (induction hs arbitrary: p) auto


lemma IsObject_not_null: "IsObject v \<Longrightarrow> \<not> IsNull v \<and> \<not> IsUndefined v"
  by (cases v) auto

lemma route_params_coordinates:
  assumes "2 \<le> length args" and "IsObject (arg args 0)" and "Has (arg args 0) ''coordinates''"
  shows "(\<not> IsArray (Get (arg args 0) ''coordinates'') \<longrightarrow>
            route_params h args =
              Inl (Thrown (Error ''coordinates must be an array of (lat/long) pairs''))) \<and>
         (IsArray (Get (arg args 0) ''coordinates'') \<and>
          Length (Get (arg args 0) ''coordinates'') < 2 \<longrightarrow>
            route_params h args =
              Inl (Thrown (Error ''at least two coordinates must be provided''))) \<and>
         (IsArray (Get (arg args 0) ''coordinates'') \<and>
          2 \<le> Length (Get (arg args 0) ''coordinates'') \<and>
          (\<exists>c\<in>set (elements (Get (arg args 0) ''coordinates'')).
              \<not> (IsArray c \<and> Length c = 2)) \<longrightarrow>
            route_params h args =
              Inl (Thrown (Error ''coordinates must be an array of (lat/long) pairs'')))"
  using assms
  by (simp add: route_params_def ToObject_IsObject IsObject_not_null add_coordinates_Inl
        del: add_coordinates.simps)

lemma table_params_coordinates:
  assumes "2 \<le> length args" and "ToObject (arg args 0) = Some obj"
  shows "(\<not> IsArray (Get obj ''coordinates'') \<longrightarrow>
            table_params h args =
              Inl (Thrown (Error ''coordinates must be an array of (lat/long) pairs''))) \<and>
         (IsArray (Get obj ''coordinates'') \<and> Length (Get obj ''coordinates'') < 2 \<longrightarrow>
            table_params h args =
              Inl (Thrown (Error ''at least two coordinates must be provided''))) \<and>
         (IsArray (Get obj ''coordinates'') \<and> 2 \<le> Length (Get obj ''coordinates'') \<and>
          (\<exists>c\<in>set (elements (Get obj ''coordinates'')). \<not> (IsArray c \<and> Length c = 2)) \<longrightarrow>
            table_params h args =
              Inl (Thrown (Error ''coordinates must be an array of (lat/long) pairs'')))"
  using assms ToObject_not_null [OF assms(2)]
  by (simp add: table_params_def add_coordinates_Inl del: add_coordinates.simps)

lemma table_params_pairs:
  assumes "2 \<le> length args" and "ToObject (arg args 0) = Some obj"
    and "IsArray (Get obj ''coordinates'')" and "2 \<le> Length (Get obj ''coordinates'')"
    and "\<forall>c\<in>set (elements (Get obj ''coordinates'')). IsArray c \<and> Length c = 2"
  shows "\<exists>p. table_params h args = Inr p"
proof -
  from add_coordinates_pairs [OF assms(5)]
  obtain p where "add_coordinates h (elements (Get obj ''coordinates''))
      ((new_RouteParameters h)\<lparr>service := ''table''\<rparr>) = Inr p"
    by blast
  then show ?thesis
    using assms(1-4) ToObject_not_null [OF assms(2)]
    by (simp add: table_params_def)
qed

lemma route_Inl: "route_params h args = Inl c \<Longrightarrow> route h this args w = (c, w)"
  by (simp add: route_def)

lemma table_Inl: "table_params h args = Inl c \<Longrightarrow> table h this args w = (c, w)"
  by (simp add: table_def)

lemma table_Inr:
  "table_params h args = Inr p \<Longrightarrow> IsFunction (arg args (length args - 1)) \<Longrightarrow>
   fst (table h this args w) = Returned"
  by (simp add: table_def Run_Returned_iff)

lemma Run_cons: "Run this (x # a # rest) p w = Run this (y # a # rest) p w"
  by (simp add: Run_def arg_def)

lemma table_null_or_undefined:
  "IsNull v \<or> IsUndefined v \<Longrightarrow> table h this [v, callback] w = (Crashed, w)"
  by (cases v) (simp_all add: table_def table_params_def arg_def)

lemma single_params_coordinates:
  "single_params h name args = Inr p \<Longrightarrow>
   coordinates p = coordinates (new_RouteParameters h) @
     [\<lparr>lat = fixed_point h (Get_index (arg args 0) 0),
       lon = fixed_point h (Get_index (arg args 0) 1)\<rparr>]"
  by (auto simp: single_params_def emplace_back_def Let_def split: if_splits)

lemma route_Returned:
  assumes "route h this args w = (Returned, w')"
  shows "\<exists>p. route_params h args = Inr p \<and>
             heap w' (next_closure w) =
               Some \<lparr>machine = this, result = [], params = p,
                     cb = arg args (length args - 1), error = False\<rparr>"
proof -
  from assms obtain p where p: "route_params h args = Inr p"
    and r: "Run this args p w = (Returned, w')"
    by (auto simp: route_def route_params_not_Returned split: sum.splits)
  from r have "IsFunction (arg args (length args - 1))"
    using Run_Returned_iff [of this args p w] by simp
  with r have "heap w' (next_closure w) =
               Some \<lparr>machine = this, result = [], params = p,
                     cb = arg args (length args - 1), error = False\<rparr>"
    by (auto simp: Run_function)
  with p show ?thesis by blast
qed

lemma apply_options_fields:
  "alternate_route (apply_options h obj p) =
     (if Has obj ''alternateRoute'' then BooleanValue h (Get obj ''alternateRoute'')
      else alternate_route p)"
  "check_sum (apply_options h obj p) =
     (if Has obj ''checksum'' then Uint32Value h (Get obj ''checksum'') else check_sum p)"
  "zoom_level (apply_options h obj p) =
     (if Has obj ''zoomLevel'' then ucast (Int32Value h (Get obj ''zoomLevel''))
      else zoom_level p)"
  "print_instructions (apply_options h obj p) =
     (if Has obj ''printInstructions'' then BooleanValue h (Get obj ''printInstructions'')
      else print_instructions p)"
  "jsonp_parameter (apply_options h obj p) =
     (if Has obj ''jsonpParameter'' then Utf8Value h (Get obj ''jsonpParameter'')
      else jsonp_parameter p)"
  "hints (apply_options h obj p) = hints p"
  "coordinates (apply_options h obj p) = coordinates p"
  by (simp_all add: apply_options_def Let_def)

lemma route_params_Inr:
  assumes "route_params h args = Inr p"
  shows "\<exists>p1. p = (let p2 = apply_options h (arg args 0) p1 in
                   if Has (arg args 0) ''hints''
                   then p2\<lparr>hints := hints p2 @
                          map (\<lambda>x. if IsString x then Utf8Value h x else [])
                            (elements (Get (arg args 0) ''hints''))\<rparr>
                   else p2) \<and>
              alternate_route p1 = True \<and> check_sum p1 = 0 \<and> zoom_level p1 = 18 \<and>
              print_instructions p1 = False \<and> jsonp_parameter p1 = [] \<and>
              hints p1 = hints (new_RouteParameters h)"
proof -
  let ?p0 = "(new_RouteParameters h)\<lparr>
                zoom_level := 18, print_instructions := False, alternate_route := True,
                geometry := True, compression := True, check_sum := 0,
                service := ''viaroute'', output_format := ''json'',
                jsonp_parameter := [], language := []\<rparr>"
  let ?obj = "arg args 0"
  from assms have obj: "IsObject ?obj"
    by (auto simp: route_params_def split: if_splits)
  from assms obj obtain p1
    where p1: "add_coordinates h (elements (Get ?obj ''coordinates'')) ?p0 = Inr p1"
    by (auto simp: route_params_def ToObject_IsObject IsObject_not_null Let_def
          split: if_splits sum.splits)
  from add_coordinates_Inr [OF p1] have fields:
    "alternate_route p1 = True" "check_sum p1 = 0" "zoom_level p1 = 18"
    "print_instructions p1 = False" "jsonp_parameter p1 = []"
    "hints p1 = hints (new_RouteParameters h)"
    by simp_all
  show ?thesis
  proof (cases "Has ?obj ''hints''")
    case False
    with assms obj p1 have "p = apply_options h ?obj p1"
      by (auto simp: route_params_def ToObject_IsObject IsObject_not_null Let_def
            split: if_splits)
    with False fields show ?thesis by (auto simp: Let_def)
  next
    case True
    with assms obj p1
    have "add_hints h (elements (Get ?obj ''hints'')) (apply_options h ?obj p1) = Inr p"
      by (auto simp: route_params_def ToObject_IsObject IsObject_not_null Let_def
            split: if_splits sum.splits)
    from add_hints_Inr [OF this] True fields show ?thesis by (auto simp: Let_def)
  qed
qed

lemma route_params_accepts:
  assumes "2 \<le> length args" and "IsObject (arg args 0)"
    and "Has (arg args 0) ''coordinates''"
    and "IsArray (Get (arg args 0) ''coordinates'')"
    and "2 \<le> Length (Get (arg args 0) ''coordinates'')"
    and "\<forall>c\<in>set (elements (Get (arg args 0) ''coordinates'')). IsArray c \<and> Length c = 2"
    and "Has (arg args 0) ''hints''"
    and "IsArray (Get (arg args 0) ''hints'')"
    and "\<forall>x\<in>set (elements (Get (arg args 0) ''hints'')). IsString x \<or> IsNull x"
  shows "\<exists>p. route_params h args = Inr p"
proof -
  let ?p0 = "(new_RouteParameters h)\<lparr>
                zoom_level := 18, print_instructions := False, alternate_route := True,
                geometry := True, compression := True, check_sum := 0,
                service := ''viaroute'', output_format := ''json'',
                jsonp_parameter := [], language := []\<rparr>"
  from add_coordinates_pairs [OF assms(6)]
  obtain p1 where p1: "add_coordinates h (elements (Get (arg args 0) ''coordinates'')) ?p0 = Inr p1"
    by blast
  from add_hints_strings [OF assms(9)]
  obtain p3 where "add_hints h (elements (Get (arg args 0) ''hints''))
                     (apply_options h (arg args 0) p1) = Inr p3"
    by blast
  with p1 assms(1-5,7,8) have "route_params h args = Inr p3"
    by (simp add: route_params_def ToObject_IsObject IsObject_not_null)
  then show ?thesis by blast
qed

lemma call_effect:
  assumes "(name, f) \<in> set prototype_methods" and "f h this args w = (c, w')"
  shows "(c \<noteq> Returned \<and> w' = w) \<or>
         (c = Returned \<and> IsFunction (arg args (length args - 1)) \<and>
          (\<exists>p. w' = w\<lparr>heap := (heap w)(next_closure w \<mapsto>
                         \<lparr>machine = this, result = [], params = p,
                          cb = arg args (length args - 1), error = False\<rparr>),
                       next_closure := Suc (next_closure w),
                       queued := queued w @ [next_closure w],
                       refs := (refs w)(this := Suc (refs w this))\<rparr>))"
proof (cases "c = Returned")
  case False
  with prototype_methods_cases [OF assms(1)] assms(2) show ?thesis
    by (auto dest: route_not_Returned locate_not_Returned nearest_not_Returned
          table_not_Returned)
next
  case True
  have run: "IsFunction (arg args (length args - 1)) \<and>
             w' = w\<lparr>heap := (heap w)(next_closure w \<mapsto>
                         \<lparr>machine = this, result = [], params = p,
                          cb = arg args (length args - 1), error = False\<rparr>),
                       next_closure := Suc (next_closure w),
                       queued := queued w @ [next_closure w],
                       refs := (refs w)(this := Suc (refs w this))\<rparr>"
    if "Run this args p w = (Returned, w')" for p
    using that Run_Returned_iff [of this args p w] by (auto simp: Run_function)
  from prototype_methods_cases [OF assms(1)] assms(2) True
  obtain p where "Run this args p w = (Returned, w')"
    by (auto simp: route_def locate_def nearest_def table_def route_params_not_Returned
          single_params_not_Returned table_params_not_Returned split: sum.splits)
  from run [OF this] True show ?thesis by blast
qed

lemma c_str_idem: "c_str (c_str s) = c_str s"
  by (simp add: c_str_def)

lemma c_str_no_nul: "CHR 0x00 \<notin> set s \<Longrightarrow> c_str s = s"
  by (auto simp: c_str_def takeWhile_eq_all_conv)

lemma AsyncRun_heap:
  assumes "heap w req = Some closure" and "AsyncRun h req w = Some w'"
  shows "heap w' req =
           Some (case RunQuery h (machine closure) (params closure) of
                   Content content \<Rightarrow> closure\<lparr>result := content\<rparr>
                 | Exception what \<Rightarrow> closure\<lparr>error := True, result := c_str what\<rparr>)"
  using assms by (auto simp: AsyncRun_def)

lemma AfterRun_calls:
  assumes "heap w req = Some closure" and "AfterRun h req w = Some w'"
  shows "calls w' = calls w @
           [(req, cb closure,
             if error closure then [JError (c_str (result closure))]
             else [JNull, JString (c_str (result closure))])]"
  using assms by (auto simp: AfterRun_def Let_def split: if_splits)

lemma length_filter_remove1:
  "a \<in> set xs \<Longrightarrow>
   length (filter P xs) = length (filter P (remove1 a xs)) + (if P a then 1 else 0)"
  by (induction xs) auto

lemma work_effect:
  assumes "step h (Work a) w = Some w'"
  shows "a \<in> set (queued w)"
    and "\<exists>cl cl'. heap w a = Some cl \<and> machine cl' = machine cl \<and> heap w' = (heap w)(a \<mapsto> cl')"
    and "queued w' = remove1 a (queued w)"
    and "finished w' = finished w @ [a]"
    and "next_closure w' = next_closure w"
    and "refs w' = refs w"
    and "calls w' = calls w"
proof -
  from assms show a: "a \<in> set (queued w)"
    by (simp split: if_splits)
  with assms obtain cl where cl: "heap w a = Some cl"
    by (auto simp: AsyncRun_def split: option.splits)
  let ?cl' = "case RunQuery h (machine cl) (params cl) of
                Content content \<Rightarrow> cl\<lparr>result := content\<rparr>
              | Exception what \<Rightarrow> cl\<lparr>error := True, result := c_str what\<rparr>"
  from assms a cl
  have w': "w' = w\<lparr>heap := (heap w)(a \<mapsto> ?cl'),
                  queued := remove1 a (queued w), finished := finished w @ [a]\<rparr>"
    by (auto simp: AsyncRun_def)
  have "machine ?cl' = machine cl"
    by (cases "RunQuery h (machine cl) (params cl)") simp_all
  with cl w' show "\<exists>cl cl'. heap w a = Some cl \<and> machine cl' = machine cl \<and>
                     heap w' = (heap w)(a \<mapsto> cl')"
    by auto
  from w' show "queued w' = remove1 a (queued w)" "finished w' = finished w @ [a]"
    "next_closure w' = next_closure w" "refs w' = refs w" "calls w' = calls w"
    by simp_all
qed

lemma after_effect:
  assumes "step h (After a) w = Some w'"
  shows "a \<in> set (finished w)"
    and "\<exists>cl. heap w a = Some cl \<and> 0 < refs w (machine cl) \<and>
              refs w' = (refs w)(machine cl := refs w (machine cl) - 1) \<and>
              (\<exists>f argv. calls w' = calls w @ [(a, f, argv)])"
    and "heap w' = (heap w)(a := None)"
    and "queued w' = queued w"
    and "finished w' = remove1 a (finished w)"
    and "next_closure w' = next_closure w"
proof -
  from assms show a: "a \<in> set (finished w)"
    by (simp split: if_splits)
  with assms have run: "AfterRun h a (w\<lparr>finished := remove1 a (finished w)\<rparr>) = Some w'"
    by simp
  then obtain cl where cl: "heap w a = Some cl"
    by (auto simp: AfterRun_def split: option.splits)
  from run cl show "\<exists>cl. heap w a = Some cl \<and> 0 < refs w (machine cl) \<and>
              refs w' = (refs w)(machine cl := refs w (machine cl) - 1) \<and>
              (\<exists>f argv. calls w' = calls w @ [(a, f, argv)])"
    by (auto simp: AfterRun_def Let_def split: if_splits)
  from run cl show "heap w' = (heap w)(a := None)" "queued w' = queued w"
    "finished w' = remove1 a (finished w)" "next_closure w' = next_closure w"
    by (auto simp: AfterRun_def Let_def split: if_splits)
qed

lemma wf_start: "wf r (start r)"
  by (simp add: wf_def start_def in_flight_def holding_def invocations_def)

lemma wf_call:
  assumes "wf r w" and "(name, f) \<in> set prototype_methods" and "f h this args w = (c, w')"
  shows "wf r w'"
proof -
  from call_effect [OF assms(2,3)] consider "w' = w"
    | p where "w' = w\<lparr>heap := (heap w)(next_closure w \<mapsto>
                         \<lparr>machine = this, result = [], params = p,
                          cb = arg args (length args - 1), error = False\<rparr>),
                       next_closure := Suc (next_closure w),
                       queued := queued w @ [next_closure w],
                       refs := (refs w)(this := Suc (refs w this))\<rparr>"
    by blast
  then show ?thesis
  proof cases
    case 1
    with assms(1) show ?thesis by simp
  next
    case 2
    let ?n = "next_closure w"
    from assms(1) have d: "distinct (queued w @ finished w)"
      and below: "\<forall>req \<in> set (queued w) \<union> set (finished w). req < ?n \<and> heap w req \<noteq> None"
      and refs: "\<And>m. refs w m = r m + length (holding w m)"
      and inv: "\<And>req. invocations w req =
                 (if req < ?n \<and> req \<notin> set (queued w) \<union> set (finished w) then 1 else 0)"
      by (auto simp: wf_def in_flight_def)
    from below have fresh: "?n \<notin> set (queued w)" "?n \<notin> set (finished w)"
      by auto
    have c1: "distinct (in_flight w')"
      using d fresh by (simp add: 2 in_flight_def)
    have c2: "\<forall>req \<in> set (in_flight w'). req < next_closure w' \<and> heap w' req \<noteq> None"
      using below by (auto simp: 2 in_flight_def less_Suc_eq)
    from 2 have fields: "heap w' = (heap w)(?n \<mapsto>
                         \<lparr>machine = this, result = [], params = p,
                          cb = arg args (length args - 1), error = False\<rparr>)"
      "queued w' = queued w @ [?n]" "finished w' = finished w"
      "refs w' = (refs w)(this := Suc (refs w this))"
      by simp_all
    have c3: "refs w' m = r m + length (holding w' m)" for m
    proof -
      let ?P = "\<lambda>req. map_option machine (heap w req) = Some m"
      let ?P' = "\<lambda>req. map_option machine (heap w' req) = Some m"
      have q: "filter ?P' (queued w) = filter ?P (queued w)"
        using fresh by (intro filter_cong) (auto simp: fields(1))
      have f: "filter ?P' (finished w) = filter ?P (finished w)"
        using fresh by (intro filter_cong) (auto simp: fields(1))
      have n: "?P' ?n \<longleftrightarrow> m = this"
        by (auto simp: fields(1))
      have "holding w' m = filter ?P' (queued w) @ filter ?P' [?n] @ filter ?P' (finished w)"
        unfolding holding_def in_flight_def fields(2,3) by simp
      then have "length (holding w' m) =
                 length (filter ?P (queued w)) + (if m = this then 1 else 0) +
                 length (filter ?P (finished w))"
        unfolding q f using n by simp
      then have "length (holding w' m) = length (holding w m) + (if m = this then 1 else 0)"
        by (simp add: holding_def in_flight_def)
      with refs [of m] show ?thesis by (auto simp: fields(4))
    qed
    have c4: "invocations w' req =
                (if req < next_closure w' \<and> req \<notin> set (in_flight w') then 1 else 0)" for req
      using inv [of req] by (auto simp: 2 invocations_def in_flight_def)
    from c1 c2 c3 c4 show ?thesis
      unfolding wf_def by blast
  qed
qed

lemma wf_work:
  assumes "wf r w" and "step h (Work a) w = Some w'"
  shows "wf r w'"
proof -
  note e = work_effect [OF assms(2)]
  from e(2) obtain cl cl' where cl: "heap w a = Some cl" "machine cl' = machine cl"
    "heap w' = (heap w)(a \<mapsto> cl')"
    by blast
  from assms(1) have d: "distinct (queued w @ finished w)"
    and below: "\<forall>req \<in> set (queued w) \<union> set (finished w). req < next_closure w \<and> heap w req \<noteq> None"
    and refs: "\<And>m. refs w m = r m + length (holding w m)"
    and inv: "\<And>req. invocations w req =
               (if req < next_closure w \<and> req \<notin> set (queued w) \<union> set (finished w) then 1 else 0)"
    by (auto simp: wf_def in_flight_def)
  from d e(1) have a: "a \<notin> set (finished w)" "a \<notin> set (remove1 a (queued w))"
    by auto
  from d e(1) have sets: "set (remove1 a (queued w)) \<union> set (finished w @ [a]) =
                          set (queued w) \<union> set (finished w)"
    by auto
  have c1: "distinct (in_flight w')"
    using d a by (auto simp: in_flight_def e(3,4))
  have c2: "\<forall>req \<in> set (in_flight w'). req < next_closure w' \<and> heap w' req \<noteq> None"
    using below sets by (auto simp: in_flight_def e(3,4,5) cl(3))
  have same: "map_option machine (heap w' req) = map_option machine (heap w req)" for req
    using cl by simp
  have c3: "refs w' m = r m + length (holding w' m)" for m
  proof -
    let ?P = "\<lambda>req. map_option machine (heap w req) = Some m"
    have "length (holding w' m) =
            length (filter ?P (remove1 a (queued w))) + length (filter ?P (finished w)) +
            (if ?P a then 1 else 0)"
      by (simp add: holding_def in_flight_def e(3,4) same)
    also have "\<dots> = length (filter ?P (queued w)) + length (filter ?P (finished w))"
      using length_filter_remove1 [OF e(1), of ?P] by simp
    also have "\<dots> = length (holding w m)"
      by (simp add: holding_def in_flight_def)
    finally show ?thesis using refs [of m] by (simp add: e(6))
  qed
  have c4: "invocations w' req =
              (if req < next_closure w' \<and> req \<notin> set (in_flight w') then 1 else 0)" for req
    using inv [of req] sets by (simp add: invocations_def in_flight_def e(3,4,5,7))
  from c1 c2 c3 c4 show ?thesis
    unfolding wf_def by blast
qed

lemma wf_after:
  assumes "wf r w" and "step h (After a) w = Some w'"
  shows "wf r w'"
proof -
  note e = after_effect [OF assms(2)]
  from e(2) obtain cl f argv where cl: "heap w a = Some cl" "0 < refs w (machine cl)"
    "refs w' = (refs w)(machine cl := refs w (machine cl) - 1)"
    "calls w' = calls w @ [(a, f, argv)]"
    by blast
  from assms(1) have d: "distinct (queued w @ finished w)"
    and below: "\<forall>req \<in> set (queued w) \<union> set (finished w). req < next_closure w \<and> heap w req \<noteq> None"
    and refs: "\<And>m. refs w m = r m + length (holding w m)"
    and inv: "\<And>req. invocations w req =
               (if req < next_closure w \<and> req \<notin> set (queued w) \<union> set (finished w) then 1 else 0)"
    by (auto simp: wf_def in_flight_def)
  from d e(1) have a: "a \<notin> set (queued w)" "a \<notin> set (remove1 a (finished w))"
    by auto
  from d have sets: "set (remove1 a (finished w)) = set (finished w) - {a}"
    by simp
  from below e(1) have lt: "a < next_closure w"
    by auto
  have c1: "distinct (in_flight w')"
    using d by (auto simp: in_flight_def e(4,5))
  have c2: "\<forall>req \<in> set (in_flight w'). req < next_closure w' \<and> heap w' req \<noteq> None"
    using below a by (auto simp: in_flight_def e(3,4,5,6) sets)
  have c3: "refs w' m = r m + length (holding w' m)" for m
  proof -
    let ?P = "\<lambda>req. map_option machine (heap w req) = Some m"
    let ?P' = "\<lambda>req. map_option machine (heap w' req) = Some m"
    have "filter ?P' (queued w) = filter ?P (queued w)"
      using a(1) by (intro filter_cong) (auto simp: e(3))
    moreover have "filter ?P' (remove1 a (finished w)) = filter ?P (remove1 a (finished w))"
      using a(2) by (intro filter_cong) (auto simp: e(3))
    ultimately have h': "length (holding w' m) =
        length (filter ?P (queued w)) + length (filter ?P (remove1 a (finished w)))"
      by (simp add: holding_def in_flight_def e(4,5))
    have h: "length (holding w m) =
        length (filter ?P (queued w)) + length (filter ?P (remove1 a (finished w))) +
        (if ?P a then 1 else 0)"
      using length_filter_remove1 [OF e(1), of ?P] by (simp add: holding_def in_flight_def)
    show ?thesis
      using refs [of m] h h' cl(1,2) by (auto simp: cl(3))
  qed
  have c4: "invocations w' req =
              (if req < next_closure w' \<and> req \<notin> set (in_flight w') then 1 else 0)" for req
    using inv [of req] inv [of a] a e(1) lt
    by (auto simp: invocations_def in_flight_def e(4,5,6) cl(4) sets)
  from c1 c2 c3 c4 show ?thesis
    unfolding wf_def by blast
qed

lemma wf_step:
  assumes "wf r w" and "step h e w = Some w'"
  shows "wf r w'"
proof (cases e)
  case (Call name this args)
  with assms(2) obtain f c where "map_of prototype_methods name = Some f"
    and "f h this args w = (c, w')"
    by (auto split: option.splits prod.splits completion.splits)
  with assms(1) show ?thesis
    by (auto intro: wf_call dest: map_of_SomeD)
next
  case (Work a)
  with assms show ?thesis by (auto intro: wf_work)
next
  case (After a)
  with assms show ?thesis by (auto intro: wf_after)
qed

lemma wf_run: "wf r w \<Longrightarrow> run h es w = Some w' \<Longrightarrow> wf r w'"
  by (induction es arbitrary: w) (auto split: option.splits intro: wf_step)

lemma work_enabled:
  assumes "wf r w" and "a \<in> set (queued w)"
  shows "\<exists>w'. step h (Work a) w = Some w'"
proof -
  from assms have "heap w a \<noteq> None"
    by (auto simp: wf_def in_flight_def)
  with assms(2) show ?thesis
    by (auto simp: AsyncRun_def)
qed

lemma after_enabled:
  assumes "wf r w" and "a \<in> set (finished w)"
  shows "\<exists>w'. step h (After a) w = Some w'"
proof -
  from assms have "heap w a \<noteq> None"
    by (auto simp: wf_def in_flight_def)
  then obtain cl where cl: "heap w a = Some cl"
    by blast
  from assms(2) cl have "a \<in> set (holding w (machine cl))"
    by (simp add: holding_def in_flight_def)
  then have "0 < length (holding w (machine cl))"
    by (cases "holding w (machine cl)") auto
  with assms(1) have "0 < refs w (machine cl)"
    by (simp add: wf_def)
  with assms(2) cl show ?thesis
    by (simp add: AfterRun_def Let_def)
qed

lemma run_append:
  "run h (es @ es') w = (case run h es w of None \<Rightarrow> None | Some w1 \<Rightarrow> run h es' w1)"
  by (induction es arbitrary: w) (auto split: option.splits)

lemma run_works:
  assumes "wf r w" and "queued w = qs"
  shows "\<exists>w'. run h (map Work qs) w = Some w' \<and> wf r w' \<and> queued w' = [] \<and>
              finished w' = finished w @ qs \<and> next_closure w' = next_closure w"
  using assms
proof (induction qs arbitrary: w)
  case Nil
  then show ?case by simp
next
  case (Cons a qs)
  from work_enabled [OF Cons.prems(1), of a h] Cons.prems(2)
  obtain w1 where w1: "step h (Work a) w = Some w1"
    by auto
  note e = work_effect [OF w1]
  from e(3) Cons.prems(2) have q: "queued w1 = qs"
    by simp
  from Cons.IH [OF wf_work [OF Cons.prems(1) w1] q]
  obtain w' where "run h (map Work qs) w1 = Some w'" "wf r w'" "queued w' = []"
    "finished w' = finished w1 @ qs" "next_closure w' = next_closure w1"
    by blast
  with w1 e(4,5) show ?case
    by simp
qed

lemma run_afters:
  assumes "wf r w" and "queued w = []" and "finished w = fs"
  shows "\<exists>w'. run h (map After fs) w = Some w' \<and> wf r w' \<and> queued w' = [] \<and>
              finished w' = [] \<and> next_closure w' = next_closure w"
  using assms
proof (induction fs arbitrary: w)
  case Nil
  then show ?case by simp
next
  case (Cons a fs)
  from after_enabled [OF Cons.prems(1), of a h] Cons.prems(3)
  obtain w1 where w1: "step h (After a) w = Some w1"
    by auto
  note e = after_effect [OF w1]
  from e(5) Cons.prems(3) have f: "finished w1 = fs"
    by simp
  from e(4) Cons.prems(2) have q: "queued w1 = []"
    by simp
  from Cons.IH [OF wf_after [OF Cons.prems(1) w1] q f]
  obtain w' where "run h (map After fs) w1 = Some w'" "wf r w'" "queued w' = []"
    "finished w' = []" "next_closure w' = next_closure w1"
    by blast
  with w1 e(6) show ?case
    by simp
qed

lemma run_drain:
  assumes "wf r w"
  shows "\<exists>w'. run h (drain w) w = Some w' \<and> wf r w' \<and> in_flight w' = [] \<and>
              next_closure w' = next_closure w"
proof -
  from run_works [OF assms refl, of h]
  obtain w1 where w1: "run h (map Work (queued w)) w = Some w1" "wf r w1" "queued w1 = []"
    "finished w1 = finished w @ queued w" "next_closure w1 = next_closure w"
    by blast
  from run_afters [OF w1(2,3,4), of h]
  obtain w' where "run h (map After (finished w @ queued w)) w1 = Some w'" "wf r w'"
    "queued w' = []" "finished w' = []" "next_closure w' = next_closure w1"
    by blast
  with w1 show ?thesis
    by (simp add: drain_def run_append in_flight_def)
qed

lemma submission_effect:
  assumes "wf r w" and "(name, f) \<in> set prototype_methods"
    and "f h this args w = (Returned, w1)"
  shows "refs w1 = (refs w)(this := Suc (refs w this)) \<and>
         in_flight w1 = queued w @ [next_closure w] @ finished w \<and>
         invocations w1 (next_closure w) = 0"
proof -
  from call_effect [OF assms(2,3)] obtain p
    where w1: "w1 = w\<lparr>heap := (heap w)(next_closure w \<mapsto>
                         \<lparr>machine = this, result = [], params = p,
                          cb = arg args (length args - 1), error = False\<rparr>),
                       next_closure := Suc (next_closure w),
                       queued := queued w @ [next_closure w],
                       refs := (refs w)(this := Suc (refs w this))\<rparr>"
    by blast
  from assms(1) have "invocations w (next_closure w) = 0"
    by (simp add: wf_def)
  with w1 show ?thesis
    by (simp add: in_flight_def invocations_def)
qed

lemma completion_effect:
  assumes "wf r w" and "step h (After req) w = Some w1"
  shows "invocations w req = 0 \<and> invocations w1 req = 1 \<and> req \<notin> set (in_flight w1) \<and>
         (\<exists>m. map_option machine (heap w req) = Some m \<and> 0 < refs w m \<and>
              refs w1 = (refs w)(m := refs w m - 1))"
proof -
  note e = after_effect [OF assms(2)]
  from assms(1) have d: "distinct (queued w @ finished w)"
    and below: "\<forall>x \<in> set (queued w) \<union> set (finished w). x < next_closure w"
    and inv: "invocations w req =
               (if req < next_closure w \<and> req \<notin> set (in_flight w) then 1 else 0)"
    by (auto simp: wf_def in_flight_def)
  from d e(1) have out: "req \<notin> set (in_flight w1)"
    by (auto simp: in_flight_def e(4,5))
  from below e(1) have "req < next_closure w1"
    by (auto simp: e(6))
  with wf_after [OF assms] out have "invocations w1 req = 1"
    by (simp add: wf_def)
  moreover from inv e(1) have "invocations w req = 0"
    by (simp add: in_flight_def)
  moreover from e(2) have "\<exists>m. map_option machine (heap w req) = Some m \<and> 0 < refs w m \<and>
              refs w1 = (refs w)(m := refs w m - 1)"
    by auto
  ultimately show ?thesis using out by blast
qed

lemma work_exact:
  assumes "step h (Work a) w = Some w'"
  shows "\<exists>cl. heap w a = Some cl \<and>
           heap w' = (heap w)(a \<mapsto>
             (case RunQuery h (machine cl) (params cl) of
                Content content \<Rightarrow> cl\<lparr>result := content\<rparr>
              | Exception what \<Rightarrow> cl\<lparr>error := True, result := c_str what\<rparr>))"
  using assms by (auto simp: AsyncRun_def split: if_splits option.splits)

lemma after_exact:
  assumes "step h (After a) w = Some w'"
  shows "\<exists>cl. heap w a = Some cl \<and>
           calls w' = calls w @
             [(a, cb cl,
               if error cl then [JError (c_str (result cl))]
               else [JNull, JString (c_str (result cl))])]"
  using assms by (auto simp: AfterRun_def Let_def split: if_splits option.splits)

lemma no_calls_in_flight:
  assumes "wf r w" and "req \<in> set (in_flight w)"
  shows "filter (\<lambda>c. fst c = req) (calls w) = []"
proof -
  from assms have "invocations w req = 0"
    by (simp add: wf_def)
  then show ?thesis
    by (simp add: invocations_def)
qed

lemma tracked_call:
  assumes "wf r w" and "tracked h req this p callback w"
    and "(name, f) \<in> set prototype_methods" and "f h this' args w = (c, w')"
  shows "tracked h req this p callback w'"
proof -
  from call_effect [OF assms(3,4)] consider "w' = w"
    | q where "w' = w\<lparr>heap := (heap w)(next_closure w \<mapsto>
                         \<lparr>machine = this', result = [], params = q,
                          cb = arg args (length args - 1), error = False\<rparr>),
                       next_closure := Suc (next_closure w),
                       queued := queued w @ [next_closure w],
                       refs := (refs w)(this' := Suc (refs w this'))\<rparr>"
    by blast
  then show ?thesis
  proof cases
    case 1
    with assms(2) show ?thesis by simp
  next
    case 2
    from assms(2) have "req < next_closure w"
      by (simp add: tracked_def)
    with assms(2) show ?thesis
      by (auto simp: tracked_def 2 in_flight_def)
  qed
qed

lemma tracked_work:
  assumes "wf r w" and "tracked h req this p callback w"
    and "step h (Work a) w = Some w'"
  shows "tracked h req this p callback w'"
proof -
  note e = work_effect [OF assms(3)]
  from work_exact [OF assms(3)] obtain cl where cl: "heap w a = Some cl"
    and hp: "heap w' = (heap w)(a \<mapsto>
             (case RunQuery h (machine cl) (params cl) of
                Content content \<Rightarrow> cl\<lparr>result := content\<rparr>
              | Exception what \<Rightarrow> cl\<lparr>error := True, result := c_str what\<rparr>))"
    by blast
  from assms(1) have d: "distinct (queued w @ finished w)"
    by (simp add: wf_def in_flight_def)
  show ?thesis
  proof (cases "a = req")
    case True
    with e(1) assms(2) cl
    have c0: "cl = \<lparr>machine = this, result = [], params = p, cb = callback, error = False\<rparr>"
      by (simp add: tracked_def)
    from d e(1) True have out: "req \<notin> set (remove1 a (queued w))"
      by auto
    have "heap w' req =
          Some (case RunQuery h this p of
                  Content content \<Rightarrow>
                    \<lparr>machine = this, result = content, params = p,
                     cb = callback, error = False\<rparr>
                | Exception what \<Rightarrow>
                    \<lparr>machine = this, result = c_str what, params = p,
                     cb = callback, error = True\<rparr>)"
      by (cases "RunQuery h this p") (simp_all add: hp True c0)
    with assms(2) out True show ?thesis
      by (simp add: tracked_def e(3,4,5,7) in_flight_def)
  next
    case False
    from False have "heap w' req = heap w req"
      by (simp add: hp)
    with assms(2) False show ?thesis
      by (auto simp: tracked_def e(3,4,5,7) in_flight_def)
  qed
qed

lemma tracked_after:
  assumes "wf r w" and "tracked h req this p callback w"
    and "step h (After a) w = Some w'"
  shows "tracked h req this p callback w'"
proof -
  note e = after_effect [OF assms(3)]
  from after_exact [OF assms(3)] obtain cl where cl: "heap w a = Some cl"
    and cs: "calls w' = calls w @
             [(a, cb cl,
               if error cl then [JError (c_str (result cl))]
               else [JNull, JString (c_str (result cl))])]"
    by blast
  from assms(1) have d: "distinct (queued w @ finished w)"
    by (simp add: wf_def in_flight_def)
  show ?thesis
  proof (cases "a = req")
    case True
    from e(1) True have fl: "req \<in> set (in_flight w)"
      by (simp add: in_flight_def)
    from d e(1) True have out: "req \<notin> set (queued w)" "req \<notin> set (remove1 a (finished w))"
      by auto
    from e(1) True assms(2) cl
    have c1: "cl = (case RunQuery h this p of
                  Content content \<Rightarrow>
                    \<lparr>machine = this, result = content, params = p,
                     cb = callback, error = False\<rparr>
                | Exception what \<Rightarrow>
                    \<lparr>machine = this, result = c_str what, params = p,
                     cb = callback, error = True\<rparr>)"
      by (simp add: tracked_def)
    have "filter (\<lambda>c. fst c = req) (calls w') =
            [(req, callback,
              case RunQuery h this p of
                Content content \<Rightarrow> [JNull, JString (c_str content)]
              | Exception what \<Rightarrow> [JError (c_str what)])]"
      using no_calls_in_flight [OF assms(1) fl]
      by (cases "RunQuery h this p") (simp_all add: cs True c1 c_str_idem)
    with assms(2) out show ?thesis
      by (simp add: tracked_def e(4,5,6) in_flight_def)
  next
    case False
    from False have "heap w' req = heap w req"
      by (simp add: e(3))
    moreover from False have "filter (\<lambda>c. fst c = req) (calls w') =
                              filter (\<lambda>c. fst c = req) (calls w)"
      by (simp add: cs)
    ultimately show ?thesis
      using assms(2) False by (auto simp: tracked_def e(4,5,6) in_flight_def)
  qed
qed

lemma tracked_step:
  assumes "wf r w" and "tracked h req this p callback w" and "step h e w = Some w'"
  shows "tracked h req this p callback w'"
proof (cases e)
  case (Call name this' args)
  with assms(3) obtain f c where "map_of prototype_methods name = Some f"
    and "f h this' args w = (c, w')"
    by (auto split: option.splits prod.splits completion.splits)
  with assms(1,2) show ?thesis
    by (auto intro: tracked_call dest: map_of_SomeD)
next
  case (Work a)
  with assms show ?thesis by (auto intro: tracked_work)
next
  case (After a)
  with assms show ?thesis by (auto intro: tracked_after)
qed

lemma tracked_run:
  "wf r w \<Longrightarrow> tracked h req this p callback w \<Longrightarrow> run h es w = Some w' \<Longrightarrow>
   tracked h req this p callback w'"
proof (induction es arbitrary: w)
  case Nil
  then show ?case by simp
next
  case (Cons e es)
  from Cons.prems(3) obtain w1 where w1: "step h e w = Some w1" and r: "run h es w1 = Some w'"
    by (auto split: option.splits)
  from Cons.IH [OF wf_step [OF Cons.prems(1) w1] tracked_step [OF Cons.prems(1,2) w1] r]
  show ?case .
qed

lemma tracked_submitted:
  assumes "wf r w" and "(name, f) \<in> set prototype_methods"
    and "f h this args w = (Returned, w1)"
  shows "\<exists>p. heap w1 (next_closure w) =
               Some \<lparr>machine = this, result = [], params = p,
                     cb = arg args (length args - 1), error = False\<rparr> \<and>
             tracked h (next_closure w) this p (arg args (length args - 1)) w1"
proof -
  from call_effect [OF assms(2,3)] obtain p
    where w1: "w1 = w\<lparr>heap := (heap w)(next_closure w \<mapsto>
                         \<lparr>machine = this, result = [], params = p,
                          cb = arg args (length args - 1), error = False\<rparr>),
                       next_closure := Suc (next_closure w),
                       queued := queued w @ [next_closure w],
                       refs := (refs w)(this := Suc (refs w this))\<rparr>"
    by blast
  from assms(1) have "next_closure w \<notin> set (finished w)"
    by (auto simp: wf_def in_flight_def)
  then have "tracked h (next_closure w) this p (arg args (length args - 1)) w1"
    by (simp add: tracked_def w1 in_flight_def)
  moreover have "heap w1 (next_closure w) =
               Some \<lparr>machine = this, result = [], params = p,
                     cb = arg args (length args - 1), error = False\<rparr>"
    by (simp add: w1)
  ultimately show ?thesis by blast
qed

lemma job_followed:
  assumes "wf r w" and "(name, f) \<in> set prototype_methods"
    and "f h this args w = (Returned, w1)" and "run h es' w1 = Some w2"
  shows "\<exists>p. map_option params (heap w1 (next_closure w)) = Some p \<and>
           (next_closure w \<in> set (in_flight w2) \<longrightarrow>
              filter (\<lambda>c. fst c = next_closure w) (calls w2) = [] \<and>
              map_option cb (heap w2 (next_closure w)) = Some (arg args (length args - 1))) \<and>
           (next_closure w \<notin> set (in_flight w2) \<longrightarrow>
              filter (\<lambda>c. fst c = next_closure w) (calls w2) =
                [(next_closure w, arg args (length args - 1),
                  case RunQuery h this p of
                    Content content \<Rightarrow> [JNull, JString (c_str content)]
                  | Exception what \<Rightarrow> [JError (c_str what)])]) \<and>
           (\<exists>w3. run h (drain w2) w2 = Some w3 \<and>
              filter (\<lambda>c. fst c = next_closure w) (calls w3) =
                [(next_closure w, arg args (length args - 1),
                  case RunQuery h this p of
                    Content content \<Rightarrow> [JNull, JString (c_str content)]
                  | Exception what \<Rightarrow> [JError (c_str what)])])"
proof -
  let ?n = "next_closure w"
  let ?c = "arg args (length args - 1)"
  from tracked_submitted [OF assms(1-3)] obtain p
    where h1: "heap w1 ?n = Some \<lparr>machine = this, result = [], params = p,
                                  cb = ?c, error = False\<rparr>"
      and t1: "tracked h ?n this p ?c w1"
    by blast
  from wf_call [OF assms(1-3)] have wf1: "wf r w1" .
  from wf_run [OF wf1 assms(4)] have wf2: "wf r w2" .
  from tracked_run [OF wf1 t1 assms(4)] have t2: "tracked h ?n this p ?c w2" .
  have flying: "filter (\<lambda>c. fst c = ?n) (calls w2) = [] \<and>
                map_option cb (heap w2 ?n) = Some ?c"
    if "?n \<in> set (in_flight w2)"
  proof -
    from that t2 have "map_option cb (heap w2 ?n) = Some ?c"
      by (cases "RunQuery h this p") (auto simp: tracked_def in_flight_def)
    with no_calls_in_flight [OF wf2 that] show ?thesis by simp
  qed
  from run_drain [OF wf2, of h] obtain w3 where w3: "run h (drain w2) w2 = Some w3"
    "wf r w3" "in_flight w3 = []"
    by blast
  from tracked_run [OF wf2 t2 w3(1)] w3(3)
  have served: "filter (\<lambda>c. fst c = ?n) (calls w3) =
                [(?n, ?c,
                  case RunQuery h this p of
                    Content content \<Rightarrow> [JNull, JString (c_str content)]
                  | Exception what \<Rightarrow> [JError (c_str what)])]"
    by (simp add: tracked_def)
  from h1 have "map_option params (heap w1 ?n) = Some p" by simp
  with flying t2 w3(1) served show ?thesis
    unfolding tracked_def by blast
qed

lemma table_params_stores:
  assumes "2 \<le> length args" and "ToObject (arg args 0) = Some obj"
    and "IsArray (Get obj ''coordinates'')" and "2 \<le> Length (Get obj ''coordinates'')"
    and "\<forall>c\<in>set (elements (Get obj ''coordinates'')). IsArray c \<and> Length c = 2"
  shows "\<exists>p. table_params h args = Inr p \<and>
           coordinates p =
             coordinates (new_RouteParameters h) @
             map (\<lambda>c. \<lparr>lat = fixed_point h (Get_index c 0),
                       lon = fixed_point h (Get_index c 1)\<rparr>)
               (elements (Get obj ''coordinates''))"
proof -
  from add_coordinates_pairs [OF assms(5)]
  obtain p where p: "add_coordinates h (elements (Get obj ''coordinates''))
      ((new_RouteParameters h)\<lparr>service := ''table''\<rparr>) = Inr p"
    by blast
  from add_coordinates_Inr [OF p] have "coordinates p =
             coordinates (new_RouteParameters h) @
             map (\<lambda>c. \<lparr>lat = fixed_point h (Get_index c 0),
                       lon = fixed_point h (Get_index c 1)\<rparr>)
               (elements (Get obj ''coordinates''))"
    by simp
  moreover from p assms(1-4) ToObject_not_null [OF assms(2)]
  have "table_params h args = Inr p"
    by (simp add: table_params_def)
  ultimately show ?thesis by blast
qed

lemma route_params_stores:
  assumes "2 \<le> length args" and "IsObject (arg args 0)"
    and "Has (arg args 0) ''coordinates''"
    and "IsArray (Get (arg args 0) ''coordinates'')"
    and "2 \<le> Length (Get (arg args 0) ''coordinates'')"
    and "\<forall>c\<in>set (elements (Get (arg args 0) ''coordinates'')). IsArray c \<and> Length c = 2"
    and "Has (arg args 0) ''hints'' \<longrightarrow>
           IsArray (Get (arg args 0) ''hints'') \<and>
           (\<forall>x\<in>set (elements (Get (arg args 0) ''hints'')). IsString x \<or> IsNull x)"
  shows "\<exists>p. route_params h args = Inr p \<and>
           coordinates p =
             coordinates (new_RouteParameters h) @
             map (\<lambda>c. \<lparr>lat = fixed_point h (Get_index c 0),
                       lon = fixed_point h (Get_index c 1)\<rparr>)
               (elements (Get (arg args 0) ''coordinates''))"
proof -
  let ?p0 = "(new_RouteParameters h)\<lparr>
                zoom_level := 18, print_instructions := False, alternate_route := True,
                geometry := True, compression := True, check_sum := 0,
                service := ''viaroute'', output_format := ''json'',
                jsonp_parameter := [], language := []\<rparr>"
  from add_coordinates_pairs [OF assms(6)]
  obtain p1 where p1: "add_coordinates h (elements (Get (arg args 0) ''coordinates'')) ?p0 = Inr p1"
    by blast
  from add_coordinates_Inr [OF p1] have c1: "coordinates p1 =
             coordinates (new_RouteParameters h) @
             map (\<lambda>c. \<lparr>lat = fixed_point h (Get_index c 0),
                       lon = fixed_point h (Get_index c 1)\<rparr>)
               (elements (Get (arg args 0) ''coordinates''))"
    by simp
  show ?thesis
  proof (cases "Has (arg args 0) ''hints''")
    case False
    with p1 assms(1-5) have "route_params h args = Inr (apply_options h (arg args 0) p1)"
      by (simp add: route_params_def ToObject_IsObject IsObject_not_null)
    with c1 show ?thesis
      by (simp add: apply_options_fields)
  next
    case True
    with assms(7) have hs: "IsArray (Get (arg args 0) ''hints'')"
      "\<forall>x\<in>set (elements (Get (arg args 0) ''hints'')). IsString x \<or> IsNull x"
      by simp_all
    from add_hints_strings [OF hs(2)]
    obtain p3 where p3: "add_hints h (elements (Get (arg args 0) ''hints''))
                     (apply_options h (arg args 0) p1) = Inr p3"
      by blast
    from add_hints_Inr [OF p3] c1 have "coordinates p3 =
             coordinates (new_RouteParameters h) @
             map (\<lambda>c. \<lparr>lat = fixed_point h (Get_index c 0),
                       lon = fixed_point h (Get_index c 1)\<rparr>)
               (elements (Get (arg args 0) ''coordinates''))"
      by (simp add: apply_options_fields)
    moreover from p1 p3 True hs(1) assms(1-5) have "route_params h args = Inr p3"
      by (simp add: route_params_def ToObject_IsObject IsObject_not_null)
    ultimately show ?thesis by blast
  qed
qed

section \<open>Rejection before dispatch\<close>

text \<open>
  Whenever a call of one of the four prototype methods does not return normally, the
  state is the one before the call: no closure has been allocated, nothing has been
  queued with the worker pool, no reference has been taken and no callback has been or
  will be called for it.
\<close>

lemma rejected_call_changes_nothing:
  assumes "(name, f) \<in> set prototype_methods"
    and "f h this args w = (c, w')"
    and "c \<noteq> Returned"
  shows "w' = w"
  using prototype_methods_cases [OF assms(1)] assms(2,3)
  by (auto dest: route_not_Returned locate_not_Returned nearest_not_Returned table_not_Returned)

text \<open>
  Claim C3 fails on the code at one input. A validation failure is to be raised to the
  caller, and the code of \<open>table\<close> means to: it throws "first arg must be an object" when
  the object is \<open>null\<close> or \<open>undefined\<close>. But it tests the handle that \<open>ToObject()\<close>
  returned, which for \<open>null\<close> and \<open>undefined\<close> is empty, so the test itself dereferences
  the empty handle and the throw is never reached: with two or more arguments of which
  the first is \<open>null\<close> or \<open>undefined\<close>, \<open>table\<close> crashes, having scheduled nothing.
  \<open>route\<close>, which asks \<open>IsObject()\<close> of the argument first, throws on the same call.
\<close>

theorem table_null_crashes:
  assumes "2 \<le> length args" and "IsNull (arg args 0) \<or> IsUndefined (arg args 0)"
  shows "table h this args w = (Crashed, w) \<and>
         route h this args w = (Thrown (TypeError ''two arguments required''), w)"
proof -
  from assms(2) have "ToObject (arg args 0) = None" "\<not> IsObject (arg args 0)"
    by (cases "arg args 0"; simp)+
  with assms(1) show ?thesis
    by (simp add: table_def table_params_def route_def route_params_def)
qed

theorem table_null_crashes_witness:
  "table example_host 0 [JNull, JFunction 0] w0 = (Crashed, w0) \<and>
   table example_host 0 [JUndefined, JFunction 0] w0 = (Crashed, w0) \<and>
   route example_host 0 [JNull, JFunction 0] w0 =
     (Thrown (TypeError ''two arguments required''), w0)"
  using table_null_crashes [of "[JNull, JFunction 0]" example_host 0 w0]
    table_null_crashes [of "[JUndefined, JFunction 0]" example_host 0 w0]
  by (simp add: arg_def)

section \<open>The callback argument\<close>




section \<open>Construction\<close>

text \<open>
  Claim C6, as the code has it. Called with \<open>new\<close>: without arguments the engine is
  built on the shared dataset; with one string it is built on that string (as a C string)
  as the base path; the error "OSRM base path must be a string" is thrown exactly when
  there is one argument and it is not a string. With two or more arguments nothing is
  rejected: the engine is built with no path and without the shared dataset. An exception
  of the engine's constructor comes back as a TypeError with its message.
\<close>

theorem new_engine:
  "(New h c args = Inl (Error ''OSRM base path must be a string'')
      \<longleftrightarrow> c \<and> length args = 1 \<and> \<not> IsString (arg args 0)) \<and>
   New h True [] =
     (case new_OSRM h [] True of
        Some what \<Rightarrow> Inl (TypeError (c_str what))
      | None \<Rightarrow> Inr \<lparr>paths = [], use_shared_memory = True\<rparr>) \<and>
   New h True [JString s] =
     (case new_OSRM h [(''base'', c_str s)] False of
        Some what \<Rightarrow> Inl (TypeError (c_str what))
      | None \<Rightarrow> Inr \<lparr>paths = [(''base'', c_str s)], use_shared_memory = False\<rparr>) \<and>
   New h True (a # b # rest) =
     (case new_OSRM h [] False of
        Some what \<Rightarrow> Inl (TypeError (c_str what))
      | None \<Rightarrow> Inr \<lparr>paths = [], use_shared_memory = False\<rparr>)"
  by (auto simp: New_def Let_def arg_def Utf8Value_def split: option.splits)

theorem new_engine_witness:
  "New example_host True [JNumber 5] = Inl (Error ''OSRM base path must be a string'') \<and>
   New example_host True [] = Inr \<lparr>paths = [], use_shared_memory = True\<rparr> \<and>
   New example_host True [JString ''/data/berlin.osrm''] =
     Inr \<lparr>paths = [(''base'', ''/data/berlin.osrm'')], use_shared_memory = False\<rparr>"
  using new_engine [of example_host True "[JNumber 5]" "''/data/berlin.osrm''"]
  by (simp add: arg_def example_host_def c_str_def)

text \<open>The claim as stated fails for two arguments: no error, an engine without a
  path.\<close>

theorem new_two_args_counterexample:
  "New example_host True [JString ''a'', JString ''b''] =
     Inr \<lparr>paths = [], use_shared_memory = False\<rparr>"
  by (simp add: New_def example_host_def)

section \<open>The coordinates of route and table\<close>

text \<open>
  Claim C5, as the code has it. For a call of \<open>route\<close> or \<open>table\<close> with at least two
  arguments and a first argument that is not \<open>null\<close> or \<open>undefined\<close> (for \<open>route\<close>: an
  object): \<open>route\<close> on an object without a \<open>coordinates\<close> property throws "must
  provide a coordinates property"; when \<open>coordinates\<close> is not an array, or is an
  array of two or more entries one of which is not an array of length 2, the call throws
  "coordinates must be an array of (lat/long) pairs"; when it is an array of fewer than
  two entries the call throws "at least two coordinates must be provided"; in every
  case the state is untouched. The two components of a pair are never examined.
  Given a function as the last argument, \<open>table\<close> accepts every array of two or more
  arrays of length 2, and so does \<open>route\<close> when its \<open>hints\<close>, if it has the property,
  is an array of strings and \<open>null\<close>; the descriptor of the job then holds, after the
  coordinates the constructor left there, one pair for each entry in order, each
  component being the \<open>NumberValue\<close> of the element, whatever its type, times
  \<open>COORDINATE_PRECISION\<close>, cast to \<open>int\<close>.
\<close>

theorem coordinates_checked:
  assumes "2 \<le> length args" and "ToObject (arg args 0) = Some obj"
  shows "(IsObject (arg args 0) \<and> \<not> Has obj ''coordinates'' \<longrightarrow>
           route h this args w = (Thrown (Error ''must provide a coordinates property''), w)) \<and>
         (IsObject (arg args 0) \<and> Has obj ''coordinates'' \<longrightarrow>
           (\<not> IsArray (Get obj ''coordinates'') \<longrightarrow>
              route h this args w =
                (Thrown (Error ''coordinates must be an array of (lat/long) pairs''), w)) \<and>
           (IsArray (Get obj ''coordinates'') \<and> Length (Get obj ''coordinates'') < 2 \<longrightarrow>
              route h this args w =
                (Thrown (Error ''at least two coordinates must be provided''), w)) \<and>
           (IsArray (Get obj ''coordinates'') \<and> 2 \<le> Length (Get obj ''coordinates'') \<and>
            (\<exists>c\<in>set (elements (Get obj ''coordinates'')). \<not> (IsArray c \<and> Length c = 2)) \<longrightarrow>
              route h this args w =
                (Thrown (Error ''coordinates must be an array of (lat/long) pairs''), w))) \<and>
         (\<not> IsArray (Get obj ''coordinates'') \<longrightarrow>
            table h this args w =
              (Thrown (Error ''coordinates must be an array of (lat/long) pairs''), w)) \<and>
         (IsArray (Get obj ''coordinates'') \<and> Length (Get obj ''coordinates'') < 2 \<longrightarrow>
            table h this args w =
              (Thrown (Error ''at least two coordinates must be provided''), w)) \<and>
         (IsArray (Get obj ''coordinates'') \<and> 2 \<le> Length (Get obj ''coordinates'') \<and>
          (\<exists>c\<in>set (elements (Get obj ''coordinates'')). \<not> (IsArray c \<and> Length c = 2)) \<longrightarrow>
            table h this args w =
              (Thrown (Error ''coordinates must be an array of (lat/long) pairs''), w)) \<and>
         (IsArray (Get obj ''coordinates'') \<and> 2 \<le> Length (Get obj ''coordinates'') \<and>
          (\<forall>c\<in>set (elements (Get obj ''coordinates'')). IsArray c \<and> Length c = 2) \<and>
          IsFunction (arg args (length args - 1)) \<longrightarrow>
            fst (table h this args w) = Returned) \<and>
         (IsArray (Get obj ''coordinates'') \<and> 2 \<le> Length (Get obj ''coordinates'') \<and>
          (\<forall>c\<in>set (elements (Get obj ''coordinates'')). IsArray c \<and> Length c = 2) \<and>
          IsFunction (arg args (length args - 1)) \<longrightarrow>
            (\<exists>w' cl. table h this args w = (Returned, w') \<and>
               heap w' (next_closure w) = Some cl \<and>
               coordinates (params cl) =
                 coordinates (new_RouteParameters h) @
                 map (\<lambda>c. \<lparr>lat = fixed_point h (Get_index c 0),
                           lon = fixed_point h (Get_index c 1)\<rparr>)
                   (elements (Get obj ''coordinates'')))) \<and>
         (IsObject (arg args 0) \<and> Has obj ''coordinates'' \<and>
          IsArray (Get obj ''coordinates'') \<and> 2 \<le> Length (Get obj ''coordinates'') \<and>
          (\<forall>c\<in>set (elements (Get obj ''coordinates'')). IsArray c \<and> Length c = 2) \<and>
          (Has obj ''hints'' \<longrightarrow>
             IsArray (Get obj ''hints'') \<and>
             (\<forall>x\<in>set (elements (Get obj ''hints'')). IsString x \<or> IsNull x)) \<and>
          IsFunction (arg args (length args - 1)) \<longrightarrow>
            (\<exists>w' cl. route h this args w = (Returned, w') \<and>
               heap w' (next_closure w) = Some cl \<and>
               coordinates (params cl) =
                 coordinates (new_RouteParameters h) @
                 map (\<lambda>c. \<lparr>lat = fixed_point h (Get_index c 0),
                           lon = fixed_point h (Get_index c 1)\<rparr>)
                   (elements (Get obj ''coordinates''))))"
proof -
  have route_missing:
    "route h this args w = (Thrown (Error ''must provide a coordinates property''), w)"
    if "IsObject (arg args 0)" "\<not> Has obj ''coordinates''"
  proof -
    from that(1) assms(2) have obj: "obj = arg args 0"
      by (simp add: ToObject_IsObject)
    from that obj assms(1)
    have "route_params h args = Inl (Thrown (Error ''must provide a coordinates property''))"
      by (simp add: route_params_def ToObject_IsObject IsObject_not_null)
    then show ?thesis by (rule route_Inl)
  qed
  have route_part:
    "route h this args w =
       (Thrown (Error ''coordinates must be an array of (lat/long) pairs''), w)"
    if "IsObject (arg args 0)" "Has obj ''coordinates''"
      and "\<not> IsArray (Get obj ''coordinates'') \<or>
           (2 \<le> Length (Get obj ''coordinates'') \<and>
            (\<exists>c\<in>set (elements (Get obj ''coordinates'')). \<not> (IsArray c \<and> Length c = 2)))"
  proof -
    from that(1) assms(2) have obj: "obj = arg args 0"
      by (simp add: ToObject_IsObject)
    from that(3) obj route_params_coordinates [OF assms(1) that(1), of h] that(2)
    have "route_params h args =
            Inl (Thrown (Error ''coordinates must be an array of (lat/long) pairs''))"
      by blast
    then show ?thesis by (rule route_Inl)
  qed
  have route_short:
    "route h this args w = (Thrown (Error ''at least two coordinates must be provided''), w)"
    if "IsObject (arg args 0)" "Has obj ''coordinates''"
      and "IsArray (Get obj ''coordinates'')" "Length (Get obj ''coordinates'') < 2"
  proof -
    from that(1) assms(2) have obj: "obj = arg args 0"
      by (simp add: ToObject_IsObject)
    from that obj route_params_coordinates [OF assms(1) that(1), of h]
    have "route_params h args = Inl (Thrown (Error ''at least two coordinates must be provided''))"
      by blast
    then show ?thesis by (rule route_Inl)
  qed
  have table_part:
    "table h this args w =
       (Thrown (Error ''coordinates must be an array of (lat/long) pairs''), w)"
    if "\<not> IsArray (Get obj ''coordinates'') \<or>
        (2 \<le> Length (Get obj ''coordinates'') \<and>
         (\<exists>c\<in>set (elements (Get obj ''coordinates'')). \<not> (IsArray c \<and> Length c = 2)))"
  proof -
    from that table_params_coordinates [OF assms, of h]
    have "table_params h args =
            Inl (Thrown (Error ''coordinates must be an array of (lat/long) pairs''))"
      by blast
    then show ?thesis by (rule table_Inl)
  qed
  have table_short:
    "table h this args w = (Thrown (Error ''at least two coordinates must be provided''), w)"
    if "IsArray (Get obj ''coordinates'')" "Length (Get obj ''coordinates'') < 2"
  proof -
    from that table_params_coordinates [OF assms, of h]
    have "table_params h args = Inl (Thrown (Error ''at least two coordinates must be provided''))"
      by blast
    then show ?thesis by (rule table_Inl)
  qed
  have table_ok: "fst (table h this args w) = Returned"
    if "IsArray (Get obj ''coordinates'')" "2 \<le> Length (Get obj ''coordinates'')"
      "\<forall>c\<in>set (elements (Get obj ''coordinates'')). IsArray c \<and> Length c = 2"
      "IsFunction (arg args (length args - 1))"
    using table_params_pairs [OF assms that(1-3), of h] that(4) by (auto intro: table_Inr)
  have table_stored:
    "\<exists>w' cl. table h this args w = (Returned, w') \<and>
       heap w' (next_closure w) = Some cl \<and>
       coordinates (params cl) =
         coordinates (new_RouteParameters h) @
         map (\<lambda>c. \<lparr>lat = fixed_point h (Get_index c 0),
                   lon = fixed_point h (Get_index c 1)\<rparr>)
           (elements (Get obj ''coordinates''))"
    if "IsArray (Get obj ''coordinates'')" "2 \<le> Length (Get obj ''coordinates'')"
      "\<forall>c\<in>set (elements (Get obj ''coordinates'')). IsArray c \<and> Length c = 2"
      "IsFunction (arg args (length args - 1))"
  proof -
    from table_params_stores [OF assms that(1-3), of h] obtain p
      where p: "table_params h args = Inr p"
        and c: "coordinates p =
          coordinates (new_RouteParameters h) @
          map (\<lambda>c. \<lparr>lat = fixed_point h (Get_index c 0),
                    lon = fixed_point h (Get_index c 1)\<rparr>)
            (elements (Get obj ''coordinates''))"
      by blast
    from p have "table h this args w = Run this args p w"
      by (simp add: table_def)
    with that(4) c show ?thesis
      by (simp add: Run_function)
  qed
  have route_stored:
    "\<exists>w' cl. route h this args w = (Returned, w') \<and>
       heap w' (next_closure w) = Some cl \<and>
       coordinates (params cl) =
         coordinates (new_RouteParameters h) @
         map (\<lambda>c. \<lparr>lat = fixed_point h (Get_index c 0),
                   lon = fixed_point h (Get_index c 1)\<rparr>)
           (elements (Get obj ''coordinates''))"
    if "IsObject (arg args 0)" "Has obj ''coordinates''"
      "IsArray (Get obj ''coordinates'')" "2 \<le> Length (Get obj ''coordinates'')"
      "\<forall>c\<in>set (elements (Get obj ''coordinates'')). IsArray c \<and> Length c = 2"
      "Has obj ''hints'' \<longrightarrow>
         IsArray (Get obj ''hints'') \<and>
         (\<forall>x\<in>set (elements (Get obj ''hints'')). IsString x \<or> IsNull x)"
      "IsFunction (arg args (length args - 1))"
  proof -
    from that(1) assms(2) have obj: "obj = arg args 0"
      by (simp add: ToObject_IsObject)
    from route_params_stores [OF assms(1) that(1), of h] that(2-6) obj obtain p
      where p: "route_params h args = Inr p"
        and c: "coordinates p =
          coordinates (new_RouteParameters h) @
          map (\<lambda>c. \<lparr>lat = fixed_point h (Get_index c 0),
                    lon = fixed_point h (Get_index c 1)\<rparr>)
            (elements (Get obj ''coordinates''))"
      by blast
    from p have "route h this args w = Run this args p w"
      by (simp add: route_def)
    with that(7) c show ?thesis
      by (simp add: Run_function)
  qed
  show ?thesis
    using route_missing route_part route_short table_part table_short table_ok
      table_stored route_stored
    by blast
qed

theorem coordinates_checked_witness:
  "route example_host 0
     [JObject [(''coordinates'', JArray [JArray [JNumber 1, JNumber 2], JNumber 3])],
      JFunction 0] w0 =
     (Thrown (Error ''coordinates must be an array of (lat/long) pairs''), w0) \<and>
   table example_host 0
     [JObject [(''coordinates'', JArray [JArray [JNumber 1, JNumber 2]])], JFunction 0] w0 =
     (Thrown (Error ''at least two coordinates must be provided''), w0) \<and>
   fst (table example_host 0 [JObject [(''coordinates'', two_points)], JFunction 0] w0) =
     Returned \<and>
   (\<exists>w' cl. route example_host 0
       [JObject [(''coordinates'', JArray [JArray [JNull, JBool True], JArray [JString ''x'', JNumber 2]])],
        JFunction 0] w0 = (Returned, w') \<and>
      heap w' 0 = Some cl \<and>
      coordinates (params cl) =
        [\<lparr>lat = fixed_point example_host JNull, lon = fixed_point example_host (JBool True)\<rparr>,
         \<lparr>lat = fixed_point example_host (JString ''x''),
          lon = fixed_point example_host (JNumber 2)\<rparr>])"
proof -
  have a: "route example_host 0
     [JObject [(''coordinates'', JArray [JArray [JNumber 1, JNumber 2], JNumber 3])],
      JFunction 0] w0 =
     (Thrown (Error ''coordinates must be an array of (lat/long) pairs''), w0)"
    using coordinates_checked [of
      "[JObject [(''coordinates'', JArray [JArray [JNumber 1, JNumber 2], JNumber 3])],
        JFunction 0]"
      "JObject [(''coordinates'', JArray [JArray [JNumber 1, JNumber 2], JNumber 3])]"
      example_host 0 w0]
    by (simp add: arg_def Has_def Get_def Length_def)
  have b: "table example_host 0
     [JObject [(''coordinates'', JArray [JArray [JNumber 1, JNumber 2]])], JFunction 0] w0 =
     (Thrown (Error ''at least two coordinates must be provided''), w0)"
    using coordinates_checked [of
      "[JObject [(''coordinates'', JArray [JArray [JNumber 1, JNumber 2]])], JFunction 0]"
      "JObject [(''coordinates'', JArray [JArray [JNumber 1, JNumber 2]])]"
      example_host 0 w0]
    by (simp add: arg_def Has_def Get_def Length_def)
  have c: "fst (table example_host 0 [JObject [(''coordinates'', two_points)], JFunction 0] w0) =
     Returned"
    using coordinates_checked [of
      "[JObject [(''coordinates'', two_points)], JFunction 0]"
      "JObject [(''coordinates'', two_points)]"
      example_host 0 w0]
    by (simp add: arg_def Has_def Get_def Length_def two_points_def)
  have d: "\<exists>w' cl. route example_host 0
       [JObject [(''coordinates'', JArray [JArray [JNull, JBool True], JArray [JString ''x'', JNumber 2]])],
        JFunction 0] w0 = (Returned, w') \<and>
      heap w' 0 = Some cl \<and>
      coordinates (params cl) =
        [\<lparr>lat = fixed_point example_host JNull, lon = fixed_point example_host (JBool True)\<rparr>,
         \<lparr>lat = fixed_point example_host (JString ''x''),
          lon = fixed_point example_host (JNumber 2)\<rparr>]"
    using coordinates_checked [of
      "[JObject [(''coordinates'', JArray [JArray [JNull, JBool True], JArray [JString ''x'', JNumber 2]])],
        JFunction 0]"
      "JObject [(''coordinates'', JArray [JArray [JNull, JBool True], JArray [JString ''x'', JNumber 2]])]"
      example_host 0 w0]
    by (simp add: arg_def Has_def Get_def Get_index_def Length_def w0_def start_def
          example_host_def)
  from a b c d show ?thesis by blast
qed

text \<open>The claim as stated fails for components that are not numbers: in
  \<open>route({coordinates: [[null, true], [false, null]]}, cb)\<close> they are coerced to 0 and 1
  and the request is accepted, with the coordinates (0, 1000000) and (0, 0).\<close>

theorem non_numeric_coordinates_counterexample:
  "fst (route example_host 0
     [JObject [(''coordinates'', JArray [JArray [JNull, JBool True], JArray [JBool False, JNull]])],
      JFunction 0] w0) = Returned \<and>
   map_option (\<lambda>c. coordinates (params c))
     (heap (snd (route example_host 0
       [JObject [(''coordinates'', JArray [JArray [JNull, JBool True], JArray [JBool False, JNull]])],
        JFunction 0] w0)) 0) =
   Some [\<lparr>lat = 0, lon = 1000000\<rparr>, \<lparr>lat = 0, lon = 0\<rparr>]"
  by (simp add: route_def route_params_def arg_def Has_def Get_def Get_index_def Length_def
        Run_def Let_def w0_def start_def apply_options_def example_host_def emplace_back_def
        fixed_point_def)

section \<open>The hints of route\<close>

text \<open>
  Claim C4, as the code has it. A call of \<open>route\<close> that gets as far as its hints (two
  or more arguments, an object with well-formed coordinates) and whose \<open>hints\<close>
  property is an array with an element that is neither a string nor \<open>null\<close> throws
  "hint must be null or string" and leaves the state untouched. \<open>table\<close> does not read
  \<open>hints\<close>: a \<open>hints\<close> property makes no difference to what it does.
\<close>

theorem hints_checked:
  assumes "2 \<le> length args" and "IsObject (arg args 0)"
    and "Has (arg args 0) ''coordinates''"
    and "IsArray (Get (arg args 0) ''coordinates'')"
    and "2 \<le> Length (Get (arg args 0) ''coordinates'')"
    and "\<forall>c\<in>set (elements (Get (arg args 0) ''coordinates'')). IsArray c \<and> Length c = 2"
    and "Has (arg args 0) ''hints''"
    and "IsArray (Get (arg args 0) ''hints'')"
    and "\<exists>x\<in>set (elements (Get (arg args 0) ''hints'')). \<not> IsString x \<and> \<not> IsNull x"
  shows "route h this args w = (Thrown (Error ''hint must be null or string''), w) \<and>
         table h this (JObject ((''hints'', hs) # ps) # rest) w =
           table h this (JObject ps # rest) w"
proof -
  let ?p0 = "(new_RouteParameters h)\<lparr>
                zoom_level := 18, print_instructions := False, alternate_route := True,
                geometry := True, compression := True, check_sum := 0,
                service := ''viaroute'', output_format := ''json'',
                jsonp_parameter := [], language := []\<rparr>"
  from add_coordinates_pairs [OF assms(6)]
  obtain p1 where p1: "add_coordinates h (elements (Get (arg args 0) ''coordinates'')) ?p0 = Inr p1"
    by blast
  have "add_hints h (elements (Get (arg args 0) ''hints'')) (apply_options h (arg args 0) p1) =
          Inl (Error ''hint must be null or string'')"
    using assms(9) by (rule add_hints_Inl)
  with p1 assms(1-5,7,8)
  have "route_params h args = Inl (Thrown (Error ''hint must be null or string''))"
    by (simp add: route_params_def ToObject_IsObject IsObject_not_null)
  then have "route h this args w = (Thrown (Error ''hint must be null or string''), w)"
    by (rule route_Inl)
  moreover have "table h this (JObject ((''hints'', hs) # ps) # rest) w =
                 table h this (JObject ps # rest) w"
  proof (cases rest)
    case Nil
    then show ?thesis by (simp add: table_def table_params_def)
  next
    case (Cons a list)
    have "table_params h (JObject ((''hints'', hs) # ps) # rest) =
          table_params h (JObject ps # rest)"
      by (simp add: table_params_def arg_def Get_def)
    with Cons show ?thesis
      by (simp add: table_def Run_cons [of this "JObject ((''hints'', hs) # ps)" a list _ w "JObject ps"]
            split: sum.splits)
  qed
  ultimately show ?thesis by simp
qed

theorem hints_checked_witness:
  "route example_host 0
     [JObject [(''coordinates'', two_points), (''hints'', JArray [JNumber 1, JString ''abc''])],
      JFunction 0] w0 =
     (Thrown (Error ''hint must be null or string''), w0) \<and>
   table example_host 0
     [JObject [(''hints'', JArray [JNumber 1, JString ''abc'']), (''coordinates'', two_points)],
      JFunction 0] w0 =
   table example_host 0 [JObject [(''coordinates'', two_points)], JFunction 0] w0"
  using hints_checked [of
      "[JObject [(''coordinates'', two_points), (''hints'', JArray [JNumber 1, JString ''abc''])],
        JFunction 0]"
      example_host 0 w0 "JArray [JNumber 1, JString ''abc'']" "[(''coordinates'', two_points)]"
      "[JFunction 0]"]
  by (simp add: arg_def Has_def Get_def Length_def two_points_def)

text \<open>The claim as stated fails for \<open>table\<close>: the request of the specification's
  scenario, \<open>table({coordinates:[[1,2],[3,4]], hints:[1,"abc"]}, cb)\<close>, is accepted and
  queued.\<close>

theorem table_hints_counterexample:
  "fst (table example_host 0
     [JObject [(''coordinates'', two_points), (''hints'', JArray [JNumber 1, JString ''abc''])],
      JFunction 0] w0) = Returned \<and>
   queued (snd (table example_host 0
     [JObject [(''coordinates'', two_points), (''hints'', JArray [JNumber 1, JString ''abc''])],
      JFunction 0] w0)) = [0]"
  by (simp add: table_def table_params_def arg_def Get_def Length_def two_points_def
        Run_def Let_def w0_def start_def)

section \<open>The descriptor of a route request\<close>

text \<open>
  Claim C9. When \<open>route\<close> accepts a request, the descriptor it hands to the job has, for
  each optional property, the value coerced from the property when the request has it
  and the default otherwise (alternate route \<open>true\<close>, checksum 0, zoom level 18, no
  instructions, empty JSONP parameter), and the hint stored for a \<open>null\<close> entry of
  \<open>hints\<close> is the empty string.
\<close>

theorem route_descriptor:
  assumes "route h this args w = (Returned, w')"
  shows "\<exists>closure. heap w' (next_closure w) = Some closure \<and>
           alternate_route (params closure) =
             (if Has (arg args 0) ''alternateRoute''
              then BooleanValue h (Get (arg args 0) ''alternateRoute'') else True) \<and>
           check_sum (params closure) =
             (if Has (arg args 0) ''checksum''
              then Uint32Value h (Get (arg args 0) ''checksum'') else 0) \<and>
           zoom_level (params closure) =
             (if Has (arg args 0) ''zoomLevel''
              then ucast (Int32Value h (Get (arg args 0) ''zoomLevel'')) else 18) \<and>
           print_instructions (params closure) =
             (if Has (arg args 0) ''printInstructions''
              then BooleanValue h (Get (arg args 0) ''printInstructions'') else False) \<and>
           jsonp_parameter (params closure) =
             (if Has (arg args 0) ''jsonpParameter''
              then Utf8Value h (Get (arg args 0) ''jsonpParameter'') else []) \<and>
           (\<forall>i < Length (Get (arg args 0) ''hints'').
              IsNull (Get_index (Get (arg args 0) ''hints'') i) \<longrightarrow>
              hints (params closure) ! (length (hints (new_RouteParameters h)) + i) = [])"
proof -
  let ?obj = "arg args 0"
  from route_Returned [OF assms] obtain p where p: "route_params h args = Inr p"
    and cl: "heap w' (next_closure w) =
               Some \<lparr>machine = this, result = [], params = p,
                     cb = arg args (length args - 1), error = False\<rparr>"
    by blast
  from route_params_Inr [OF p] obtain p1
    where eq: "p = (let p2 = apply_options h ?obj p1 in
                   if Has ?obj ''hints''
                   then p2\<lparr>hints := hints p2 @
                          map (\<lambda>x. if IsString x then Utf8Value h x else [])
                            (elements (Get ?obj ''hints''))\<rparr>
                   else p2)"
      and d: "alternate_route p1 = True" "check_sum p1 = 0" "zoom_level p1 = 18"
        "print_instructions p1 = False" "jsonp_parameter p1 = []"
        "hints p1 = hints (new_RouteParameters h)"
    by blast
  have opts:
    "alternate_route p = alternate_route (apply_options h ?obj p1)"
    "check_sum p = check_sum (apply_options h ?obj p1)"
    "zoom_level p = zoom_level (apply_options h ?obj p1)"
    "print_instructions p = print_instructions (apply_options h ?obj p1)"
    "jsonp_parameter p = jsonp_parameter (apply_options h ?obj p1)"
    by (simp_all add: eq Let_def)
  have nulls: "hints p ! (length (hints (new_RouteParameters h)) + i) = []"
    if "i < Length (Get ?obj ''hints'')" "IsNull (Get_index (Get ?obj ''hints'') i)" for i
  proof -
    from that(1) have has: "Has ?obj ''hints''"
      by (auto simp: Has_def Get_def Length_def split: option.splits)
    from that(2) have "\<not> IsString (Get_index (Get ?obj ''hints'') i)"
      by (cases "Get_index (Get ?obj ''hints'') i") simp_all
    with that has show ?thesis
      by (simp add: eq Let_def apply_options_fields d nth_append Get_index_def Length_def)
  qed
  from cl opts nulls show ?thesis
    by (simp add: apply_options_fields d)
qed

theorem route_descriptor_witness:
  "fst (route example_host 0
     [JObject [(''coordinates'', two_points), (''zoomLevel'', JNumber 14),
        (''alternateRoute'', JBool False), (''hints'', JArray [JString ''abc'', JNull])],
      JFunction 0] w0) = Returned \<and>
   map_option (\<lambda>c. (alternate_route (params c), check_sum (params c), zoom_level (params c),
        print_instructions (params c), jsonp_parameter (params c), hints (params c)))
     (heap (snd (route example_host 0
       [JObject [(''coordinates'', two_points), (''zoomLevel'', JNumber 14),
          (''alternateRoute'', JBool False), (''hints'', JArray [JString ''abc'', JNull])],
        JFunction 0] w0)) 0) =
   Some (False, 0, 14, False, [], [''abc'', []])"
  using route_descriptor [of example_host 0
      "[JObject [(''coordinates'', two_points), (''zoomLevel'', JNumber 14),
          (''alternateRoute'', JBool False), (''hints'', JArray [JString ''abc'', JNull])],
        JFunction 0]" w0
      "snd (route example_host 0
       [JObject [(''coordinates'', two_points), (''zoomLevel'', JNumber 14),
          (''alternateRoute'', JBool False), (''hints'', JArray [JString ''abc'', JNull])],
        JFunction 0] w0)"]
  by (simp add: route_def route_params_def arg_def Has_def Get_def Length_def two_points_def
        Run_def Let_def w0_def start_def apply_options_def example_host_def Utf8Value_def
        c_str_def emplace_back_def)

section \<open>Hints of any length\<close>

text \<open>
  Claim C10. A request of \<open>route\<close> with well-formed coordinates and a callback, whose
  \<open>hints\<close> array holds only strings and \<open>null\<close>, is accepted whatever the length of
  that array (nothing relates it to the number of coordinates), and the hints of the
  descriptor are those the constructor left there followed by the entries in their
  order, a string as itself (read as a C string) and \<open>null\<close> as the empty string.
\<close>

theorem hints_of_any_length:
  assumes "2 \<le> length args" and "IsObject (arg args 0)"
    and "Has (arg args 0) ''coordinates''"
    and "IsArray (Get (arg args 0) ''coordinates'')"
    and "2 \<le> Length (Get (arg args 0) ''coordinates'')"
    and "\<forall>c\<in>set (elements (Get (arg args 0) ''coordinates'')). IsArray c \<and> Length c = 2"
    and "IsFunction (arg args (length args - 1))"
    and "Has (arg args 0) ''hints''"
    and "IsArray (Get (arg args 0) ''hints'')"
    and "\<forall>x\<in>set (elements (Get (arg args 0) ''hints'')). IsString x \<or> IsNull x"
  shows "\<exists>w' closure. route h this args w = (Returned, w') \<and>
           heap w' (next_closure w) = Some closure \<and>
           hints (params closure) =
             hints (new_RouteParameters h) @
             map (\<lambda>x. if IsString x then Utf8Value h x else [])
               (elements (Get (arg args 0) ''hints''))"
proof -
  from route_params_accepts [OF assms(1-6,8-10)]
  obtain p where p: "route_params h args = Inr p"
    by blast
  from route_params_Inr [OF p] assms(8)
  have h: "hints p = hints (new_RouteParameters h) @
             map (\<lambda>x. if IsString x then Utf8Value h x else [])
               (elements (Get (arg args 0) ''hints''))"
    by (auto simp: Let_def apply_options_fields)
  from p assms(7) have "route h this args w = Run this args p w"
    by (simp add: route_def)
  with assms(7) h show ?thesis
    by (simp add: Run_function)
qed

theorem hints_of_any_length_witness:
  "fst (route example_host 0
     [JObject [(''coordinates'', two_points),
        (''hints'', JArray [JString ''abc'', JNull, JString ''def''])],
      JFunction 0] w0) = Returned \<and>
   map_option (\<lambda>c. hints (params c))
     (heap (snd (route example_host 0
       [JObject [(''coordinates'', two_points),
          (''hints'', JArray [JString ''abc'', JNull, JString ''def''])],
        JFunction 0] w0)) 0) =
   Some [''abc'', [], ''def'']"
  using hints_of_any_length [of
      "[JObject [(''coordinates'', two_points),
          (''hints'', JArray [JString ''abc'', JNull, JString ''def''])],
        JFunction 0]" example_host 0 w0]
  by (simp add: route_def route_params_def arg_def Has_def Get_def Length_def two_points_def
        Run_def Let_def w0_def start_def apply_options_def example_host_def Utf8Value_def
        c_str_def emplace_back_def)

section \<open>Scaled coordinates outside int\<close>

text \<open>
  Claim C8 fails on the code for an accepted pair whose scaled value does not fit an
  \<open>int\<close>. \<open>locate([3000, -3000], cb)\<close> is accepted; the stored components are 32-bit
  values, so whatever the conversion yields, neither can be the truncated product
  3000000000 or its negative; C++ leaves this conversion undefined, and on the example
  host, as on x86, both components are the least \<open>int\<close>.
\<close>

theorem scaled_coordinate_out_of_range:
  "fst (locate example_host 0 [JArray [JNumber 3000, JNumber (- 3000)], JFunction 0] w0) =
     Returned \<and>
   map_option (\<lambda>c. map (\<lambda>p. (sint (lat p), sint (lon p))) (coordinates (params c)))
     (heap (snd (locate example_host 0
        [JArray [JNumber 3000, JNumber (- 3000)], JFunction 0] w0)) 0) =
     Some [(- 2147483648, - 2147483648)] \<and>
   sint (fixed_point h v) \<noteq> 3000 * 1000000 \<and>
   sint (fixed_point h v) \<noteq> - 3000 * 1000000"
proof -
  have "sint (fixed_point h v) < 2 ^ (LENGTH(32) - 1)"
    by (rule sint_lt)
  moreover have "- (2 ^ (LENGTH(32) - 1)) \<le> sint (fixed_point h v)"
    by (rule sint_ge)
  ultimately have range: "sint (fixed_point h v) \<noteq> 3000 * 1000000"
    "sint (fixed_point h v) \<noteq> - 3000 * 1000000"
    by simp_all
  have "fst (locate example_host 0 [JArray [JNumber 3000, JNumber (- 3000)], JFunction 0] w0) =
     Returned \<and>
   map_option (\<lambda>c. map (\<lambda>p. (sint (lat p), sint (lon p))) (coordinates (params c)))
     (heap (snd (locate example_host 0
        [JArray [JNumber 3000, JNumber (- 3000)], JFunction 0] w0)) 0) =
     Some [(- 2147483648, - 2147483648)]"
    by (simp add: locate_def single_params_def arg_def Length_def Get_index_def Run_def Let_def
          w0_def start_def emplace_back_def fixed_point_def example_host_def)
  with range show ?thesis by simp
qed

section \<open>What the callback is called with\<close>

text \<open>
  Claim C2, as the code has it. Take the job that an accepted call of one of the four
  methods creates, and let \<open>AsyncRun\<close> and later \<open>AfterRun\<close> run on it, whatever
  happens in between to the rest of the state. \<open>AfterRun\<close> calls the callback of the
  job once: with \<open>null\<close> and the reply's content up to its first NUL byte when the
  engine answered, and with an Error carrying the exception's message, as the single
  argument, when the engine threw. A content or a message without a NUL byte arrives
  whole.
\<close>

theorem completion_arguments:
  assumes "(name, f) \<in> set prototype_methods"
    and "f h this args w = (Returned, w1)"
    and "heap w2 (next_closure w) = heap w1 (next_closure w)"
    and "AsyncRun h (next_closure w) w2 = Some w3"
    and "heap w4 (next_closure w) = heap w3 (next_closure w)"
    and "AfterRun h (next_closure w) w4 = Some w5"
  shows "\<exists>p. map_option params (heap w1 (next_closure w)) = Some p \<and>
             calls w5 = calls w4 @
               [(next_closure w, arg args (length args - 1),
                 case RunQuery h this p of
                   Content content \<Rightarrow> [JNull, JString (c_str content)]
                 | Exception what \<Rightarrow> [JError (c_str what)])] \<and>
             (\<forall>content. RunQuery h this p = Content content \<and> CHR 0x00 \<notin> set content \<longrightarrow>
                calls w5 = calls w4 @
                  [(next_closure w, arg args (length args - 1), [JNull, JString content])]) \<and>
             (\<forall>what. RunQuery h this p = Exception what \<and> CHR 0x00 \<notin> set what \<longrightarrow>
                calls w5 = calls w4 @
                  [(next_closure w, arg args (length args - 1), [JError what])])"
proof -
  let ?n = "next_closure w"
  from call_effect [OF assms(1,2)] obtain p
    where h1: "heap w1 ?n = Some \<lparr>machine = this, result = [], params = p,
                                  cb = arg args (length args - 1), error = False\<rparr>"
    by auto
  let ?c0 = "\<lparr>machine = this, result = [], params = p,
              cb = arg args (length args - 1), error = False\<rparr>"
  let ?c1 = "case RunQuery h this p of
               Content content \<Rightarrow> ?c0\<lparr>result := content\<rparr>
             | Exception what \<Rightarrow> ?c0\<lparr>error := True, result := c_str what\<rparr>"
  from h1 assms(3) have "heap w2 ?n = Some ?c0" by simp
  from AsyncRun_heap [OF this assms(4)] have "heap w3 ?n = Some ?c1" by simp
  with assms(5) have "heap w4 ?n = Some ?c1" by simp
  from AfterRun_calls [OF this assms(6)]
  have calls: "calls w5 = calls w4 @
      [(?n, arg args (length args - 1),
        case RunQuery h this p of
          Content content \<Rightarrow> [JNull, JString (c_str content)]
        | Exception what \<Rightarrow> [JError (c_str what)])]"
    by (cases "RunQuery h this p") (simp_all add: c_str_idem)
  from h1 have "map_option params (heap w1 ?n) = Some p" by simp
  with calls show ?thesis
    by (auto simp: c_str_no_nul)
qed

theorem completion_arguments_witness:
  "fst (route example_host 0 [JObject [(''coordinates'', two_points)], JFunction 7] w0) = Returned \<and>
   map_option calls
     (run example_host
        [Call ''route'' 0 [JObject [(''coordinates'', two_points)], JFunction 7],
         Work 0, After 0] w0) =
     Some [(0, JFunction 7, [JNull, JString ''{}''])] \<and>
   map_option calls
     (run example_host
        [Call ''locate'' 0 [JArray [JNumber 1, JNumber 2], JFunction 7],
         Work 0, After 0] w0) =
     Some [(0, JFunction 7, [JError ''no such service''])]"
  using completion_arguments [of "''route''" route example_host 0
      "[JObject [(''coordinates'', two_points)], JFunction 7]" w0
      "snd (route example_host 0 [JObject [(''coordinates'', two_points)], JFunction 7] w0)"
      "snd (route example_host 0 [JObject [(''coordinates'', two_points)], JFunction 7] w0)"
      "the (AsyncRun example_host 0
         (snd (route example_host 0 [JObject [(''coordinates'', two_points)], JFunction 7] w0)))"
      "the (AsyncRun example_host 0
         (snd (route example_host 0 [JObject [(''coordinates'', two_points)], JFunction 7] w0)))"
      "the (AfterRun example_host 0 (the (AsyncRun example_host 0
         (snd (route example_host 0 [JObject [(''coordinates'', two_points)], JFunction 7] w0)))))"]
  by (simp add: prototype_methods_def route_def route_params_def locate_def single_params_def
        arg_def Has_def Get_def Length_def two_points_def Run_def Let_def w0_def start_def
        apply_options_def example_host_def emplace_back_def AsyncRun_def AfterRun_def
        c_str_def)

text \<open>The claim as stated fails for a reply that holds a NUL byte: of the content
  \<open>a\<close>, NUL, \<open>b\<close> the callback receives \<open>a\<close>.\<close>

theorem payload_with_nul_counterexample:
  "map_option (\<lambda>c. RunQuery nul_host (machine c) (params c))
     (heap (snd (route nul_host 0
        [JObject [(''coordinates'', two_points)], JFunction 7] w0)) 0) =
     Some (Content [CHR ''a'', CHR 0x00, CHR ''b'']) \<and>
   map_option calls
     (run nul_host
        [Call ''route'' 0 [JObject [(''coordinates'', two_points)], JFunction 7],
         Work 0, After 0] w0) =
     Some [(0, JFunction 7, [JNull, JString ''a''])]"
  by (simp add: prototype_methods_def route_def route_params_def
        arg_def Has_def Get_def Length_def two_points_def Run_def Let_def w0_def start_def
        apply_options_def nul_host_def example_host_def emplace_back_def AsyncRun_def
        AfterRun_def c_str_def)

section \<open>The life of a job\<close>

text \<open>
  Claim C1. In every state that calls of the methods, workers and the loop can reach
  from a state without requests: the callback has been called exactly once for every
  job that was submitted and has completed and not yet for a job in flight, never twice,
  and the reference count of every engine is its count at the start plus the number of
  its jobs in flight. An accepted call adds one to the count of its engine and puts one
  job in flight, for which no call has been made; \<open>AfterRun\<close> on a finished request
  makes the one call for it, of the function its closure holds, takes one from the count
  of its engine, which was positive, and takes the job out of flight. From every such
  state the loop can run the requests in flight to their end: then the callback has been
  called exactly once for every job ever submitted and every count is back at its value
  at the start. And the call made is the one of the handle that was submitted: for a job
  that an accepted call creates in such a state, whatever happens afterwards, as long as
  the job is in flight its closure holds the last argument of that call and the log has
  no call for the job, and once it is out of flight the log has exactly one call for it,
  of that very argument, with the outcome of the engine's query on the job's descriptor;
  running the loop to the end always gets it there.
\<close>

theorem job_lifecycle:
  assumes "run h es (start r) = Some w"
  shows "(\<forall>req. invocations w req =
            (if req < next_closure w \<and> req \<notin> set (in_flight w) then 1 else 0)) \<and>
         (\<forall>m. refs w m = r m + length (holding w m)) \<and>
         (\<forall>name f this args w1.
            (name, f) \<in> set prototype_methods \<and> f h this args w = (Returned, w1) \<longrightarrow>
            refs w1 = (refs w)(this := Suc (refs w this)) \<and>
            in_flight w1 = queued w @ [next_closure w] @ finished w \<and>
            invocations w1 (next_closure w) = 0) \<and>
         (\<forall>req w1.
            step h (After req) w = Some w1 \<longrightarrow>
            invocations w req = 0 \<and> invocations w1 req = 1 \<and> req \<notin> set (in_flight w1) \<and>
            (\<exists>m. map_option machine (heap w req) = Some m \<and> 0 < refs w m \<and>
                 refs w1 = (refs w)(m := refs w m - 1)) \<and>
            (\<exists>cl. heap w req = Some cl \<and>
                 calls w1 = calls w @
                   [(req, cb cl,
                     if error cl then [JError (c_str (result cl))]
                     else [JNull, JString (c_str (result cl))])])) \<and>
         (\<exists>w'. run h (drain w) w = Some w' \<and> in_flight w' = [] \<and>
               next_closure w' = next_closure w \<and> refs w' = r \<and>
               (\<forall>req. invocations w' req = (if req < next_closure w then 1 else 0))) \<and>
         (\<forall>name f this args w1 es' w2.
            (name, f) \<in> set prototype_methods \<and> f h this args w = (Returned, w1) \<and>
            run h es' w1 = Some w2 \<longrightarrow>
            (\<exists>p. map_option params (heap w1 (next_closure w)) = Some p \<and>
               (next_closure w \<in> set (in_flight w2) \<longrightarrow>
                  filter (\<lambda>c. fst c = next_closure w) (calls w2) = [] \<and>
                  map_option cb (heap w2 (next_closure w)) =
                    Some (arg args (length args - 1))) \<and>
               (next_closure w \<notin> set (in_flight w2) \<longrightarrow>
                  filter (\<lambda>c. fst c = next_closure w) (calls w2) =
                    [(next_closure w, arg args (length args - 1),
                      case RunQuery h this p of
                        Content content \<Rightarrow> [JNull, JString (c_str content)]
                      | Exception what \<Rightarrow> [JError (c_str what)])]) \<and>
               (\<exists>w3. run h (drain w2) w2 = Some w3 \<and>
                  filter (\<lambda>c. fst c = next_closure w) (calls w3) =
                    [(next_closure w, arg args (length args - 1),
                      case RunQuery h this p of
                        Content content \<Rightarrow> [JNull, JString (c_str content)]
                      | Exception what \<Rightarrow> [JError (c_str what)])])))"
proof -
  from wf_run [OF wf_start assms] have wf: "wf r w" .
  from run_drain [OF wf, of h]
  obtain w' where w': "run h (drain w) w = Some w'" "wf r w'" "in_flight w' = []"
    "next_closure w' = next_closure w"
    by blast
  from w'(2,3) have "refs w' m = r m" for m
    by (simp add: wf_def holding_def)
  then have "refs w' = r" by (rule ext)
  moreover from w'(2,3,4)
  have "invocations w' req = (if req < next_closure w then 1 else 0)" for req
    by (simp add: wf_def)
  ultimately have drained: "\<exists>w'. run h (drain w) w = Some w' \<and> in_flight w' = [] \<and>
               next_closure w' = next_closure w \<and> refs w' = r \<and>
               (\<forall>req. invocations w' req = (if req < next_closure w then 1 else 0))"
    using w' by blast
  from wf have counts: "\<forall>req. invocations w req =
            (if req < next_closure w \<and> req \<notin> set (in_flight w) then 1 else 0)"
    and refs: "\<forall>m. refs w m = r m + length (holding w m)"
    by (simp_all add: wf_def)
  have completion: "invocations w req = 0 \<and> invocations w1 req = 1 \<and>
            req \<notin> set (in_flight w1) \<and>
            (\<exists>m. map_option machine (heap w req) = Some m \<and> 0 < refs w m \<and>
                 refs w1 = (refs w)(m := refs w m - 1)) \<and>
            (\<exists>cl. heap w req = Some cl \<and>
                 calls w1 = calls w @
                   [(req, cb cl,
                     if error cl then [JError (c_str (result cl))]
                     else [JNull, JString (c_str (result cl))])])"
    if "step h (After req) w = Some w1" for req w1
    using completion_effect [OF wf that] after_exact [OF that] by blast
  have followed: "\<exists>p. map_option params (heap w1 (next_closure w)) = Some p \<and>
               (next_closure w \<in> set (in_flight w2) \<longrightarrow>
                  filter (\<lambda>c. fst c = next_closure w) (calls w2) = [] \<and>
                  map_option cb (heap w2 (next_closure w)) =
                    Some (arg args (length args - 1))) \<and>
               (next_closure w \<notin> set (in_flight w2) \<longrightarrow>
                  filter (\<lambda>c. fst c = next_closure w) (calls w2) =
                    [(next_closure w, arg args (length args - 1),
                      case RunQuery h this p of
                        Content content \<Rightarrow> [JNull, JString (c_str content)]
                      | Exception what \<Rightarrow> [JError (c_str what)])]) \<and>
               (\<exists>w3. run h (drain w2) w2 = Some w3 \<and>
                  filter (\<lambda>c. fst c = next_closure w) (calls w3) =
                    [(next_closure w, arg args (length args - 1),
                      case RunQuery h this p of
                        Content content \<Rightarrow> [JNull, JString (c_str content)]
                      | Exception what \<Rightarrow> [JError (c_str what)])])"
    if "(name, f) \<in> set prototype_methods" "f h this args w = (Returned, w1)"
      "run h es' w1 = Some w2" for name f this args w1 es' w2
    using that by (rule job_followed [OF wf])
  have submission: "refs w1 = (refs w)(this := Suc (refs w this)) \<and>
            in_flight w1 = queued w @ [next_closure w] @ finished w \<and>
            invocations w1 (next_closure w) = 0"
    if "(name, f) \<in> set prototype_methods" "f h this args w = (Returned, w1)"
    for name f this args w1
    using that by (rule submission_effect [OF wf])
  from submission have sub_all: "\<forall>name f this args w1.
            (name, f) \<in> set prototype_methods \<and> f h this args w = (Returned, w1) \<longrightarrow>
            refs w1 = (refs w)(this := Suc (refs w this)) \<and>
            in_flight w1 = queued w @ [next_closure w] @ finished w \<and>
            invocations w1 (next_closure w) = 0"
    by blast
  from completion have comp_all: "\<forall>req w1.
            step h (After req) w = Some w1 \<longrightarrow>
            invocations w req = 0 \<and> invocations w1 req = 1 \<and> req \<notin> set (in_flight w1) \<and>
            (\<exists>m. map_option machine (heap w req) = Some m \<and> 0 < refs w m \<and>
                 refs w1 = (refs w)(m := refs w m - 1)) \<and>
            (\<exists>cl. heap w req = Some cl \<and>
                 calls w1 = calls w @
                   [(req, cb cl,
                     if error cl then [JError (c_str (result cl))]
                     else [JNull, JString (c_str (result cl))])])"
    by blast
  from followed have foll_all: "\<forall>name f this args w1 es' w2.
            (name, f) \<in> set prototype_methods \<and> f h this args w = (Returned, w1) \<and>
            run h es' w1 = Some w2 \<longrightarrow>
            (\<exists>p. map_option params (heap w1 (next_closure w)) = Some p \<and>
               (next_closure w \<in> set (in_flight w2) \<longrightarrow>
                  filter (\<lambda>c. fst c = next_closure w) (calls w2) = [] \<and>
                  map_option cb (heap w2 (next_closure w)) =
                    Some (arg args (length args - 1))) \<and>
               (next_closure w \<notin> set (in_flight w2) \<longrightarrow>
                  filter (\<lambda>c. fst c = next_closure w) (calls w2) =
                    [(next_closure w, arg args (length args - 1),
                      case RunQuery h this p of
                        Content content \<Rightarrow> [JNull, JString (c_str content)]
                      | Exception what \<Rightarrow> [JError (c_str what)])]) \<and>
               (\<exists>w3. run h (drain w2) w2 = Some w3 \<and>
                  filter (\<lambda>c. fst c = next_closure w) (calls w3) =
                    [(next_closure w, arg args (length args - 1),
                      case RunQuery h this p of
                        Content content \<Rightarrow> [JNull, JString (c_str content)]
                      | Exception what \<Rightarrow> [JError (c_str what)])]))"
    by (intro allI impI) (elim conjE, assumption)
  from counts refs sub_all comp_all drained foll_all show ?thesis
    by - (intro conjI, assumption+)
qed

theorem job_lifecycle_witness:
  "\<exists>w w1 w' w3. run example_host
        [Call ''route'' 0 [JObject [(''coordinates'', two_points)], JFunction 7], Work 0,
         Call ''locate'' 0 [JArray [JNumber 1, JNumber 2], JFunction 8], After 0] w0 = Some w \<and>
     next_closure w = 2 \<and> in_flight w = [1] \<and>
     calls w = [(0, JFunction 7, [JNull, JString ''{}''])] \<and>
     invocations w 0 = 1 \<and> invocations w 1 = 0 \<and> refs w 0 = 1 \<and>
     route example_host 0 [JObject [(''coordinates'', two_points)], JFunction 9] w =
       (Returned, w1) \<and>
     refs w1 0 = 2 \<and> invocations w1 2 = 0 \<and>
     map_option cb (heap w1 2) = Some (JFunction 9) \<and>
     run example_host (drain w1) w1 = Some w3 \<and>
     filter (\<lambda>c. fst c = 2) (calls w3) = [(2, JFunction 9, [JNull, JString ''{}''])] \<and>
     run example_host (drain w) w = Some w' \<and> in_flight w' = [] \<and> refs w' 0 = 0 \<and>
     invocations w' 0 = 1 \<and> invocations w' 1 = 1"
proof -
  let ?es = "[Call ''route'' 0 [JObject [(''coordinates'', two_points)], JFunction 7], Work 0,
         Call ''locate'' 0 [JArray [JNumber 1, JNumber 2], JFunction 8], After 0]"
  obtain w where w: "run example_host ?es (start (\<lambda>_. 0)) = Some w"
    and n: "next_closure w = 2" and fl: "queued w = [1]" "finished w = []"
    and m: "map_option machine (heap w 1) = Some 0"
    and cs: "calls w = [(0, JFunction 7, [JNull, JString ''{}''])]"
    by (simp add: prototype_methods_def route_def route_params_def locate_def single_params_def
        arg_def Has_def Get_def Length_def two_points_def Run_def Let_def start_def
        apply_options_def emplace_back_def AsyncRun_def AfterRun_def c_str_def
        example_host_def)
  obtain w1 where w1: "route example_host 0
      [JObject [(''coordinates'', two_points)], JFunction 9] w = (Returned, w1)"
    and sv: "map_option (\<lambda>c. service (params c)) (heap w1 (next_closure w)) = Some ''viaroute''"
    by (simp add: route_def route_params_def arg_def Has_def Get_def Length_def two_points_def
        Run_def Let_def prod_eq_iff apply_options_def emplace_back_def)
  have r: "(''route'', route) \<in> set prototype_methods"
    by (simp add: prototype_methods_def)
  have e: "run example_host [] w1 = Some w1"
    by simp
  note life = job_lifecycle [OF w]
  from life have inv: "invocations w req =
      (if req < next_closure w \<and> req \<notin> set (in_flight w) then 1 else 0)" for req
    by blast
  from life have refs: "refs w m = 0 + length (holding w m)" for m
    by blast
  from life r w1 have sub: "refs w1 = (refs w)(0 := Suc (refs w 0))"
    "in_flight w1 = queued w @ [next_closure w] @ finished w"
    "invocations w1 (next_closure w) = 0"
    by blast+
  from life obtain w' where w': "run example_host (drain w) w = Some w'" "in_flight w' = []"
    "refs w' = (\<lambda>_. 0)"
    "\<And>req. invocations w' req = (if req < next_closure w then 1 else 0)"
    by blast
  from life r w1 e obtain p w3
    where p: "map_option params (heap w1 (next_closure w)) = Some p"
      and fly: "next_closure w \<in> set (in_flight w1) \<longrightarrow>
                map_option cb (heap w1 (next_closure w)) =
                  Some (arg [JObject [(''coordinates'', two_points)], JFunction 9]
                         (length [JObject [(''coordinates'', two_points)], JFunction 9] - 1))"
      and w3: "run example_host (drain w1) w1 = Some w3"
        "filter (\<lambda>c. fst c = next_closure w) (calls w3) =
           [(next_closure w,
             arg [JObject [(''coordinates'', two_points)], JFunction 9]
               (length [JObject [(''coordinates'', two_points)], JFunction 9] - 1),
             case RunQuery example_host 0 p of
               Content content \<Rightarrow> [JNull, JString (c_str content)]
             | Exception what \<Rightarrow> [JError (c_str what)])]"
    by blast
  from p sv have "service p = ''viaroute''"
    by (cases "heap w1 (next_closure w)") auto
  then have q: "RunQuery example_host 0 p = Content ''{}''"
    by (simp add: example_host_def)
  have in_fl: "in_flight w = [1]"
    by (simp add: in_flight_def fl)
  have "refs w 0 = 1"
    using refs [of 0] m by (simp add: holding_def in_fl)
  with w w1 n in_fl cs inv [of 0] inv [of 1] sub w' fly w3 q show ?thesis
    by (auto simp: w0_def arg_def c_str_def)
qed

end
